theory Spec2Isabelle
  imports Complex_Main
begin

section \<open>C doubles: IEEE 754 binary64\<close>

text \<open>
  A \<^verbatim>\<open>double\<close> of raycast.c is an IEEE 754 binary64 number: a finite value, the negative
  zero, one of the two infinities, or a NaN. \<open>Fin 0\<close> is the positive zero. The finite
  doubles are the reals \<open>m * 2^e\<close> with \<open>|m| < 2^53\<close> and \<open>-1074 \<le> e \<le> 971\<close>; an
  operation computes the exact real result and rounds it to the nearest double, ties to
  the even mantissa (the default rounding mode). Every operation of the source is
  rounded on its own, in the order the source writes it (no fused multiply-add, no
  wider intermediate format).
\<close>

datatype dbl = Fin real | NegZero | PInf | NInf | NaN

fun is_nan :: "dbl \<Rightarrow> bool" where
  "is_nan NaN = True"
| "is_nan _ = False"

fun is_inf :: "dbl \<Rightarrow> bool" where
  "is_inf PInf = True"
| "is_inf NInf = True"
| "is_inf _ = False"

fun is_finite :: "dbl \<Rightarrow> bool" where
  "is_finite (Fin x) = True"
| "is_finite NegZero = True"
| "is_finite _ = False"

fun rval :: "dbl \<Rightarrow> real" where
  "rval (Fin x) = x"
| "rval _ = 0"

fun is_zero :: "dbl \<Rightarrow> bool" where
  "is_zero (Fin x) = (x = 0)"
| "is_zero NegZero = True"
| "is_zero _ = False"

fun signbit :: "dbl \<Rightarrow> bool" where
  "signbit (Fin x) = (x < 0)"
| "signbit NegZero = True"
| "signbit PInf = False"
| "signbit NInf = True"
| "signbit NaN = False"

definition mk_zero :: "bool \<Rightarrow> dbl" where
  "mk_zero neg = (if neg then NegZero else Fin 0)"

definition mk_inf :: "bool \<Rightarrow> dbl" where
  "mk_inf neg = (if neg then NInf else PInf)"

text \<open>
  Rounding. \<open>rhe q\<close> is the integer nearest to \<open>q\<close>, the even one of the two when \<open>q\<close> is
  half-way. \<open>ulp_exp x\<close> is the exponent \<open>e\<close> of the spacing \<open>2^e\<close> of the doubles around
  \<open>x\<close>: 52 below the binary exponent of \<open>x\<close>, and never below \<open>-1074\<close>, the spacing of the
  subnormal numbers. \<open>round64 x\<close> is the multiple of that spacing nearest to \<open>x\<close>, and
  \<open>max_double\<close> is the largest finite double.
\<close>

definition rhe :: "real \<Rightarrow> int" where
  "rhe q = (let f = \<lfloor>q\<rfloor>; r = q - of_int f
            in if r < 1 / 2 then f else if 1 / 2 < r then f + 1
               else if even f then f else f + 1)"

definition ulp_exp :: "real \<Rightarrow> int" where
  "ulp_exp x = max (\<lfloor>log 2 \<bar>x\<bar>\<rfloor> - 52) (- 1074)"

definition round64 :: "real \<Rightarrow> real" where
  "round64 x = (if x = 0 then 0
                else of_int (rhe (x / 2 powr of_int (ulp_exp x))) * 2 powr of_int (ulp_exp x))"

definition max_double :: real where
  "max_double = (2 ^ 53 - 1) * 2 ^ 971"

text \<open>
  \<open>fl zneg x\<close> is the double an operation delivers when its exact result is \<open>x\<close>: an
  exact zero has the sign \<open>zneg\<close> that the operation prescribes; a result that rounds
  beyond \<open>max_double\<close> overflows to the infinity of its sign; a result that rounds to zero
  (underflow) keeps its sign.
\<close>

definition fl :: "bool \<Rightarrow> real \<Rightarrow> dbl" where
  "fl zneg x =
     (if x = 0 then mk_zero zneg
      else let r = round64 x
           in if max_double < \<bar>r\<bar> then mk_inf (x < 0)
              else if r = 0 then mk_zero (x < 0)
              else Fin r)"

text \<open>
  The operations \<^verbatim>\<open>- + - * / sqrt <\<close> of the source. The sign of an exact zero sum is
  negative only when both operands are negative zeros; the sign of a product and of a
  quotient is the exclusive or of the signs. \<^verbatim>\<open>x < y\<close> is false as soon as one side is a
  NaN.
\<close>

definition dneg :: "dbl \<Rightarrow> dbl" where
  "dneg x = (case x of
       Fin r \<Rightarrow> (if r = 0 then NegZero else Fin (- r))
     | NegZero \<Rightarrow> Fin 0
     | PInf \<Rightarrow> NInf
     | NInf \<Rightarrow> PInf
     | NaN \<Rightarrow> NaN)"

definition dadd :: "dbl \<Rightarrow> dbl \<Rightarrow> dbl" where
  "dadd x y =
     (if is_nan x \<or> is_nan y \<or> (is_inf x \<and> is_inf y \<and> signbit x \<noteq> signbit y) then NaN
      else if is_inf x then x
      else if is_inf y then y
      else fl (is_zero x \<and> is_zero y \<and> signbit x \<and> signbit y) (rval x + rval y))"

definition dsub :: "dbl \<Rightarrow> dbl \<Rightarrow> dbl" where
  "dsub x y = dadd x (dneg y)"

definition dmul :: "dbl \<Rightarrow> dbl \<Rightarrow> dbl" where
  "dmul x y =
     (if is_nan x \<or> is_nan y \<or> (is_zero x \<and> is_inf y) \<or> (is_inf x \<and> is_zero y) then NaN
      else if is_inf x \<or> is_inf y then mk_inf (signbit x \<noteq> signbit y)
      else fl (signbit x \<noteq> signbit y) (rval x * rval y))"

definition ddiv :: "dbl \<Rightarrow> dbl \<Rightarrow> dbl" where
  "ddiv x y =
     (if is_nan x \<or> is_nan y \<or> (is_zero x \<and> is_zero y) \<or> (is_inf x \<and> is_inf y) then NaN
      else if is_inf x \<or> is_zero y then mk_inf (signbit x \<noteq> signbit y)
      else if is_inf y then mk_zero (signbit x \<noteq> signbit y)
      else fl (signbit x \<noteq> signbit y) (rval x / rval y))"

definition dsqrt :: "dbl \<Rightarrow> dbl" where
  "dsqrt x = (case x of
       Fin r \<Rightarrow> (if r < 0 then NaN else fl False (sqrt r))
     | NegZero \<Rightarrow> NegZero
     | PInf \<Rightarrow> PInf
     | NInf \<Rightarrow> NaN
     | NaN \<Rightarrow> NaN)"

definition dless :: "dbl \<Rightarrow> dbl \<Rightarrow> bool" where
  "dless x y =
     (if is_nan x \<or> is_nan y then False
      else if x = NInf then y \<noteq> NInf
      else if y = PInf then x \<noteq> PInf
      else if x = PInf \<or> y = NInf then False
      else rval x < rval y)"

section \<open>The intersection routines\<close>

text \<open>\<^verbatim>\<open>double sqr(double v) { return v*v; }\<close>\<close>

definition sqr :: "dbl \<Rightarrow> dbl" where
  "sqr v = dmul v v"

text \<open>
  \<^verbatim>\<open>plane_intersection\<close>: the arguments are pointers to three doubles, here lists read by
  index. The integer constants of the source are converted to doubles, so
  \<^verbatim>\<open>return -1\<close> is \<open>Fin (- 1)\<close>.
\<close>

definition plane_intersection :: "dbl list \<Rightarrow> dbl list \<Rightarrow> dbl list \<Rightarrow> dbl list \<Rightarrow> dbl" where
  "plane_intersection origin direction position normal =
     (let a = dadd (dadd (dmul (normal ! 0) (direction ! 0)) (dmul (normal ! 1) (direction ! 1)))
                   (dmul (normal ! 2) (direction ! 2));
          b = map (\<lambda>i. dsub (position ! i) (origin ! i)) [0 ..< 3];
          d = dadd (dadd (dmul (b ! 0) (normal ! 0)) (dmul (b ! 1) (normal ! 1)))
                   (dmul (b ! 2) (normal ! 2));
          t = ddiv d a
      in if dless t (Fin 0) then Fin (- 1) else t)"

definition sphere_intersection :: "dbl list \<Rightarrow> dbl list \<Rightarrow> dbl list \<Rightarrow> dbl \<Rightarrow> dbl" where
  "sphere_intersection origin direction offset radius =
     (let a = dadd (dadd (sqr (direction ! 0)) (sqr (direction ! 1))) (sqr (direction ! 2));
          b = dmul (Fin 2)
                (dadd (dadd (dmul (direction ! 0) (dsub (origin ! 0) (offset ! 0)))
                            (dmul (direction ! 1) (dsub (origin ! 1) (offset ! 1))))
                      (dmul (direction ! 2) (dsub (origin ! 2) (offset ! 2))));
          c = dsub (dadd (dadd (sqr (dsub (origin ! 0) (offset ! 0)))
                               (sqr (dsub (origin ! 1) (offset ! 1))))
                         (sqr (dsub (origin ! 2) (offset ! 2))))
                   (sqr radius);
          det = dsub (sqr b) (dmul (dmul (Fin 4) a) c)
      in if dless det (Fin 0) then Fin (- 1)
         else let det' = dsqrt det;
                  t0 = ddiv (dsub (dneg b) det') (dmul (Fin 2) a)
              in if dless (Fin 0) t0 then t0
                 else let t1 = ddiv (dadd (dneg b) det') (dmul (Fin 2) a)
                      in if dless (Fin 0) t1 then t1 else Fin (- 1))"

text \<open>
  The formulas of the claims on the two routines, read over the real numbers: what
  the claims say is returned, \<open>None\<close> standing for "no intersection". These two
  definitions follow the words of the specification, not the source; the counterexamples
  below compare them with the routines.
\<close>

definition sphere_intersection_claim :: "real list \<Rightarrow> real list \<Rightarrow> real list \<Rightarrow> real \<Rightarrow> real option" where
  "sphere_intersection_claim origin direction center radius =
     (let a = direction ! 0 * direction ! 0 + direction ! 1 * direction ! 1
              + direction ! 2 * direction ! 2;
          b = 2 * (direction ! 0 * (origin ! 0 - center ! 0) + direction ! 1 * (origin ! 1 - center ! 1)
                   + direction ! 2 * (origin ! 2 - center ! 2));
          c = (origin ! 0 - center ! 0) ^ 2 + (origin ! 1 - center ! 1) ^ 2
              + (origin ! 2 - center ! 2) ^ 2 - radius ^ 2;
          disc = b ^ 2 - 4 * a * c;
          t0 = (- b - sqrt disc) / (2 * a);
          t1 = (- b + sqrt disc) / (2 * a)
      in if disc < 0 then None
         else if 0 < t0 then Some t0
         else if 0 < t1 then Some t1
         else None)"


section \<open>Scene objects, errors and the input stream\<close>

text \<open>
  The struct \<^verbatim>\<open>Object\<close>. The members of its anonymous union are flattened into the
  record: every object of the source reads and writes the members of one variant only
  (a light uses those of \<^verbatim>\<open>plane\<close>), so the overlap of the variants in memory is never
  observed. \<^verbatim>\<open>type\<close> is named \<open>otype\<close>.
\<close>

record Object =
  otype :: string
  color :: "dbl list"
  position :: "dbl list"
  colorGiven :: bool
  positionGiven :: bool
  width :: dbl
  height :: dbl
  widthGiven :: bool
  heightGiven :: bool
  normal :: "dbl list"
  normalGiven :: bool
  radius :: dbl
  radiusGiven :: bool

datatype okind = Camera | Sphere | Plane | Light

datatype ofield = Color | Position | Radius | Normal | Width | Height

text \<open>
  One constructor for each message that raycast.c prints on \<^verbatim>\<open>stderr\<close>; all but
  \<open>UnknownProperty\<close> in the sphere, plane and light branches are followed by
  \<^verbatim>\<open>exit(1)\<close>. The constructors are named after the error kinds of the specification and
  tell the branch of \<^verbatim>\<open>read_scene\<close> that printed the message:
  \<^item> \<open>UnexpectedEndOfFile l\<close>: "Unexpected end of file on line number l." (\<^verbatim>\<open>next_c\<close>);
  \<^item> \<open>ExpectedChar d l\<close>: "Expected 'd' on line l." (\<^verbatim>\<open>expect_c\<close>);
  \<^item> \<open>ExpectedString l\<close>, \<open>StringTooLong\<close>, \<open>StringEscape\<close>, \<open>StringNotAscii\<close>:
    the four messages of \<^verbatim>\<open>next_string\<close>;
  \<^item> \<open>NumberEndOfFile\<close>: "Unexpected end of file.", \<open>NumberReadError\<close>: "Error reading
    file." (\<^verbatim>\<open>next_number\<close>);
  \<^item> \<open>CouldNotOpen\<close>: "Could not open file";
  \<^item> \<open>EmptySceneRejected\<close>: "This is the worst scene file EVER.";
  \<^item> \<open>ExpectedTypeKey l\<close>: "Expected "type" key on line number l.";
  \<^item> \<open>UnknownType v l\<close>: "Unknown type, "v", on line number l.";
  \<^item> \<open>UnknownProperty k l\<close>: "Unknown property, "k", on line l.";
  \<^item> \<open>DuplicateField k f\<close>: the "... has already been set." message of field \<open>f\<close> in the
    branch of kind \<open>k\<close>;
  \<^item> \<open>ValueOutOfRange k f\<close>: the "... is invalid." message of field \<open>f\<close> in the branch of
    kind \<open>k\<close>;
  \<^item> \<open>MissingRequiredField k flags\<close>: the "... not given." and "... must be given."
    messages after the closing brace; the sphere's message prints its three flags.
  \<open>ObjectArrayOverflow i\<close> is no message: it stands for the store \<^verbatim>\<open>objectArray[i]\<close>
  beyond the 1000 allocated objects, whose behaviour C leaves undefined.
\<close>

datatype error =
    CouldNotOpen
  | UnexpectedEndOfFile int
  | ExpectedChar char int
  | ExpectedString int
  | StringTooLong
  | StringEscape
  | StringNotAscii
  | NumberEndOfFile
  | NumberReadError
  | EmptySceneRejected
  | ExpectedTypeKey int
  | UnknownType string int
  | UnknownProperty string int
  | DuplicateField okind ofield
  | ValueOutOfRange okind ofield
  | MissingRequiredField okind "bool list"
  | ObjectArrayOverflow nat

text \<open>
  The \<^verbatim>\<open>FILE*\<close> and the global \<^verbatim>\<open>line\<close>: the characters not yet read, the end-of-file and
  error indicators of the stream, the line counter, and the messages printed on
  \<^verbatim>\<open>stderr\<close> by branches that do not exit.
\<close>

record pstate =
  inp :: "char list"
  eof :: bool
  ioerr :: bool
  line :: int
  errlog :: "error list"

text \<open>\<^verbatim>\<open>fgetc\<close>: \<open>None\<close> is \<^verbatim>\<open>EOF\<close>, which sets the end-of-file indicator.\<close>

definition fgetc :: "pstate \<Rightarrow> char option \<times> pstate" where
  "fgetc s = (case inp s of
       [] \<Rightarrow> (None, s\<lparr>eof := True\<rparr>)
     | c # cs \<Rightarrow> (Some c, s\<lparr>inp := cs\<rparr>))"

text \<open>\<^verbatim>\<open>ungetc\<close> pushes the character back and clears the end-of-file indicator.\<close>

definition ungetc :: "char \<Rightarrow> pstate \<Rightarrow> pstate" where
  "ungetc c s = s\<lparr>inp := c # inp s, eof := False\<rparr>"

text \<open>
  A function of the lexer either exits with an error (\<open>Inl\<close>) or returns a value and the
  new state. \<open>bind_p\<close> runs one after the other; \<open>return_p\<close> returns a value.
\<close>

definition bind_p ::
  "(pstate \<Rightarrow> error + ('a \<times> pstate)) \<Rightarrow> ('a \<Rightarrow> pstate \<Rightarrow> error + ('b \<times> pstate)) \<Rightarrow>
   pstate \<Rightarrow> error + ('b \<times> pstate)" where
  "bind_p m f s = (case m s of Inl err \<Rightarrow> Inl err | Inr (x, s') \<Rightarrow> f x s')"

definition return_p :: "'a \<Rightarrow> pstate \<Rightarrow> error + ('a \<times> pstate)" where
  "return_p x s = Inr (x, s)"

definition exit_p :: "error \<Rightarrow> pstate \<Rightarrow> error + ('a \<times> pstate)" where
  "exit_p err s = Inl err"

definition next_c :: "pstate \<Rightarrow> error + (char \<times> pstate)" where
  "next_c s = (case fgetc s of
       (None, s') \<Rightarrow> Inl (UnexpectedEndOfFile (line s'))
     | (Some c, s') \<Rightarrow> Inr (c, if c = CHR 0x0A then s'\<lparr>line := line s' + 1\<rparr> else s'))"

definition expect_c :: "char \<Rightarrow> pstate \<Rightarrow> error + (unit \<times> pstate)" where
  "expect_c d = bind_p next_c (\<lambda>c s. if c = d then Inr ((), s) else Inl (ExpectedChar d (line s)))"

text \<open>\<^verbatim>\<open>isspace\<close> in the C locale: space, and the control characters 9 to 13.\<close>

definition isspace :: "char \<Rightarrow> bool" where
  "isspace c = (c = CHR '' '' \<or> (9::nat) \<le> of_char c \<and> of_char c \<le> (13::nat))"

lemma next_c_consumes: "next_c s = Inr (c, s') \<Longrightarrow> length (inp s') < length (inp s)"
  by (auto simp: next_c_def fgetc_def split: list.splits if_splits)

text \<open>The \<^verbatim>\<open>while (isspace(c))\<close> loop of \<^verbatim>\<open>skip_ws\<close>, then the \<^verbatim>\<open>ungetc\<close>.\<close>

function skip_ws_loop :: "char \<Rightarrow> pstate \<Rightarrow> error + (unit \<times> pstate)" where
  "skip_ws_loop c s =
     (if isspace c then (case next_c s of Inl err \<Rightarrow> Inl err | Inr (c', s') \<Rightarrow> skip_ws_loop c' s')
      else Inr ((), ungetc c s))"
  by pat_completeness auto
termination
  by (relation "measure (\<lambda>(c, s). length (inp s))") (auto dest: next_c_consumes)

definition skip_ws :: "pstate \<Rightarrow> error + (unit \<times> pstate)" where
  "skip_ws = bind_p next_c skip_ws_loop"

text \<open>
  The \<^verbatim>\<open>while (c != '"')\<close> loop of \<^verbatim>\<open>next_string\<close>; the index \<^verbatim>\<open>i\<close> is the length of the
  buffer filled so far. \<open>CHR 0x22\<close> is the double quote, \<open>CHR 0x5C\<close> the backslash.
\<close>

function next_string_loop :: "char \<Rightarrow> string \<Rightarrow> pstate \<Rightarrow> error + (string \<times> pstate)" where
  "next_string_loop c buffer s =
     (if c \<noteq> CHR 0x22 then
        (if length buffer \<ge> 128 then Inl StringTooLong
         else if c = CHR 0x5C then Inl StringEscape
         else if (of_char c :: nat) < 32 \<or> (of_char c :: nat) > 126 then Inl StringNotAscii
         else (case next_c s of Inl err \<Rightarrow> Inl err
               | Inr (c', s') \<Rightarrow> next_string_loop c' (buffer @ [c]) s'))
      else Inr (buffer, s))"
  by pat_completeness auto
termination
  by (relation "measure (\<lambda>(c, b, s). length (inp s))") (auto dest: next_c_consumes)

definition next_string :: "pstate \<Rightarrow> error + (string \<times> pstate)" where
  "next_string =
     bind_p next_c (\<lambda>c s. if c \<noteq> CHR 0x22 then Inl (ExpectedString (line s))
                          else bind_p next_c (\<lambda>c'. next_string_loop c' []) s)"

text \<open>
  What the program text does not determine is a parameter of the model:
  \<^item> \<open>fscanf_lf\<close>: the C library's \<^verbatim>\<open>fscanf(json, "%lf", &value)\<close> on the unread
    characters: the value converted (\<open>None\<close> for a matching failure, which leaves
    \<^verbatim>\<open>value\<close> as it was), how many characters it consumed, and whether it ran into the
    end of the file or into a read error;
  \<^item> \<open>garbage_value\<close>: the content of the uninitialised local \<^verbatim>\<open>value\<close> of
    \<^verbatim>\<open>next_number\<close>;
  \<^item> \<open>garbage_object\<close>: the content of an uninitialised local \<^verbatim>\<open>Object\<close>.
\<close>

record scan =
  matched :: "dbl option"
  consumed :: nat
  hit_eof :: bool
  hit_error :: bool

record env =
  fscanf_lf :: "char list \<Rightarrow> scan"
  garbage_value :: dbl
  garbage_object :: Object

definition next_number :: "env \<Rightarrow> pstate \<Rightarrow> error + (dbl \<times> pstate)" where
  "next_number e s =
     (let r = fscanf_lf e (inp s);
          val = (case matched r of Some v \<Rightarrow> v | None \<Rightarrow> garbage_value e);
          s' = s\<lparr>inp := drop (consumed r) (inp s),
                 eof := eof s \<or> hit_eof r,
                 ioerr := ioerr s \<or> hit_error r\<rparr>
      in if eof s' then Inl NumberEndOfFile
         else if ioerr s' then Inl NumberReadError
         else Inr (val, s'))"

definition next_vector :: "env \<Rightarrow> pstate \<Rightarrow> error + (dbl list \<times> pstate)" where
  "next_vector e =
     bind_p (expect_c CHR ''['') (\<lambda>_.
     bind_p skip_ws (\<lambda>_.
     bind_p (next_number e) (\<lambda>v0.
     bind_p skip_ws (\<lambda>_.
     bind_p (expect_c CHR '','') (\<lambda>_.
     bind_p skip_ws (\<lambda>_.
     bind_p (next_number e) (\<lambda>v1.
     bind_p skip_ws (\<lambda>_.
     bind_p (expect_c CHR '','') (\<lambda>_.
     bind_p skip_ws (\<lambda>_.
     bind_p (next_number e) (\<lambda>v2.
     bind_p skip_ws (\<lambda>_.
     bind_p (expect_c CHR '']'') (\<lambda>_.
     return_p [v0, v1, v2])))))))))))))"

subsection \<open>No lexer function gives characters back\<close>

text \<open>
  \<open>noninc m\<close>: when \<open>m\<close> returns, the unread input is no longer than before;
  \<open>consuming m\<close>: it is shorter. The field loops of \<^verbatim>\<open>read_scene\<close> terminate by this.
\<close>

definition noninc :: "(pstate \<Rightarrow> error + ('a \<times> pstate)) \<Rightarrow> bool" where
  "noninc m = (\<forall>s x s'. m s = Inr (x, s') \<longrightarrow> length (inp s') \<le> length (inp s))"

definition consuming :: "(pstate \<Rightarrow> error + ('a \<times> pstate)) \<Rightarrow> bool" where
  "consuming m = (\<forall>s x s'. m s = Inr (x, s') \<longrightarrow> length (inp s') < length (inp s))"

lemma consuming_noninc: "consuming m \<Longrightarrow> noninc m"
  by (auto simp: consuming_def noninc_def intro: less_imp_le)

lemma noninc_return [simp]: "noninc (return_p x)"
  by (simp add: noninc_def return_p_def)

lemma noninc_exit [simp]: "noninc (exit_p err)" "consuming (exit_p err)"
  by (simp_all add: noninc_def consuming_def exit_p_def)

lemma bind_p_Inr:
  "bind_p m f s = Inr r \<longleftrightarrow> (\<exists>x s1. m s = Inr (x, s1) \<and> f x s1 = Inr r)"
  by (auto simp: bind_p_def split: sum.splits)

lemma noninc_bind: "noninc m \<Longrightarrow> (\<And>x. noninc (f x)) \<Longrightarrow> noninc (bind_p m f)"
  unfolding noninc_def bind_p_Inr
  by (meson le_trans)

lemma consuming_bind: "consuming m \<Longrightarrow> (\<And>x. noninc (f x)) \<Longrightarrow> consuming (bind_p m f)"
  unfolding noninc_def consuming_def bind_p_Inr
  by (meson le_less_trans)

lemma noninc_if: "noninc m \<Longrightarrow> noninc m' \<Longrightarrow> noninc (if b then m else m')"
  by simp

lemma consuming_next_c [simp]: "consuming next_c"
  by (auto simp: consuming_def dest: next_c_consumes)

lemma consuming_expect_c [simp]: "consuming (expect_c d)"
  unfolding expect_c_def
  by (rule consuming_bind) (auto simp: noninc_def split: if_splits)

lemma skip_ws_loop_len:
  "skip_ws_loop c s = Inr (x, s') \<Longrightarrow> length (inp s') \<le> Suc (length (inp s))"
proof (induction c s rule: skip_ws_loop.induct)
  case (1 c s)
  show ?case
  proof (cases "isspace c")
    case True
    with "1.prems" obtain c' s1 where n: "next_c s = Inr (c', s1)" and r: "skip_ws_loop c' s1 = Inr (x, s')"
      by (auto split: sum.splits)
    from "1.IH" [OF True n refl r] next_c_consumes [OF n] show ?thesis by simp
  next
    case False
    with "1.prems" show ?thesis by (auto simp: ungetc_def)
  qed
qed

lemma noninc_skip_ws [simp]: "noninc skip_ws"
  unfolding noninc_def skip_ws_def bind_p_Inr
proof (intro allI impI)
  fix s x s'
  assume "\<exists>c s1. next_c s = Inr (c, s1) \<and> skip_ws_loop c s1 = Inr (x, s')"
  then obtain c s1 where n: "next_c s = Inr (c, s1)" and r: "skip_ws_loop c s1 = Inr (x, s')"
    by blast
  from next_c_consumes [OF n] skip_ws_loop_len [OF r] show "length (inp s') \<le> length (inp s)"
    by simp
qed

lemma next_string_loop_len:
  "next_string_loop c b s = Inr (x, s') \<Longrightarrow> length (inp s') \<le> length (inp s)"
proof (induction c b s rule: next_string_loop.induct)
  case (1 c b s)
  show ?case
  proof (cases "c = CHR 0x22")
    case True
    with "1.prems" show ?thesis by simp
  next
    case False
    with "1.prems" have g: "\<not> 128 \<le> length b" "c \<noteq> CHR 0x5C"
        "\<not> ((of_char c :: nat) < 32 \<or> (of_char c :: nat) > 126)"
      by (auto split: if_splits)
    with False "1.prems" obtain c' s1 where n: "next_c s = Inr (c', s1)"
        and r: "next_string_loop c' (b @ [c]) s1 = Inr (x, s')"
      by (auto split: sum.splits if_splits)
    from "1.IH" [OF False g n refl r] next_c_consumes [OF n] show ?thesis by simp
  qed
qed

lemma noninc_next_string [simp]: "noninc next_string"
  unfolding noninc_def
proof (intro allI impI)
  fix s x s'
  assume a: "next_string s = Inr (x, s')"
  then obtain c s1 where n: "next_c s = Inr (c, s1)"
      and r: "(if c \<noteq> CHR 0x22 then Inl (ExpectedString (line s1))
               else bind_p next_c (\<lambda>c'. next_string_loop c' []) s1) = Inr (x, s')"
    unfolding next_string_def bind_p_Inr by blast
  from r have "bind_p next_c (\<lambda>c'. next_string_loop c' []) s1 = Inr (x, s')"
    by (simp split: if_splits)
  then obtain c' s2 where n2: "next_c s1 = Inr (c', s2)"
      and l: "next_string_loop c' [] s2 = Inr (x, s')"
    unfolding bind_p_Inr by blast
  from next_c_consumes [OF n] next_c_consumes [OF n2] next_string_loop_len [OF l]
  show "length (inp s') \<le> length (inp s)" by simp
qed

lemma noninc_next_number [simp]: "noninc (next_number e)"
  by (auto simp: noninc_def next_number_def Let_def split: if_splits)

lemma noninc_next_vector [simp]: "noninc (next_vector e)"
  unfolding next_vector_def
  by (intro noninc_bind consuming_noninc consuming_expect_c noninc_skip_ws noninc_next_number noninc_return)

section \<open>The scene loader\<close>

text \<open>
  The range test on a colour, written three times in \<^verbatim>\<open>read_scene\<close>:
  \<^verbatim>\<open>(keyValue[0] < 0) || (keyValue[0] > 255) || ... || (keyValue[2] > 255)\<close>.
\<close>

definition color_invalid :: "dbl list \<Rightarrow> bool" where
  "color_invalid keyValue =
     (dless (keyValue ! 0) (Fin 0) \<or> dless (Fin 255) (keyValue ! 0) \<or>
      dless (keyValue ! 1) (Fin 0) \<or> dless (Fin 255) (keyValue ! 1) \<or>
      dless (keyValue ! 2) (Fin 0) \<or> dless (Fin 255) (keyValue ! 2))"

text \<open>How one round of a \<^verbatim>\<open>while (1)\<close> field loop ends: \<^verbatim>\<open>break\<close>, or the next round.\<close>

datatype 'a step = Break 'a | Continue 'a

subsection \<open>Camera\<close>

text \<open>The \<^verbatim>\<open>if (strcmp(key, ...) == 0)\<close> chain of the camera branch: no final \<^verbatim>\<open>else\<close>.\<close>

definition camera_field :: "env \<Rightarrow> string \<Rightarrow> Object \<Rightarrow> pstate \<Rightarrow> error + (Object \<times> pstate)" where
  "camera_field e key cam =
     (if key = ''width'' then
        (if widthGiven cam then exit_p (DuplicateField Camera Width)
         else bind_p (next_number e) (\<lambda>keyValue.
              if dless keyValue (Fin 1) then exit_p (ValueOutOfRange Camera Width)
              else return_p (cam\<lparr>widthGiven := True, width := keyValue\<rparr>)))
      else if key = ''height'' then
        (if heightGiven cam then exit_p (DuplicateField Camera Height)
         else bind_p (next_number e) (\<lambda>keyValue.
              if dless keyValue (Fin 1) then exit_p (ValueOutOfRange Camera Height)
              else return_p (cam\<lparr>heightGiven := True, height := keyValue\<rparr>)))
      else return_p cam)"

text \<open>
  One round of the camera loop. Its last \<^verbatim>\<open>else\<close> belongs to the test of the character
  \<^verbatim>\<open>c\<close>; the \<^verbatim>\<open>key\<close> it prints is the one in scope there, the key read after the
  opening brace (\<open>tkey\<close>).
\<close>

definition camera_step :: "env \<Rightarrow> string \<Rightarrow> Object \<Rightarrow> pstate \<Rightarrow> error + (Object step \<times> pstate)" where
  "camera_step e tkey cam =
     bind_p next_c (\<lambda>c.
       if c = CHR ''}'' then return_p (Break cam)
       else if c = CHR '','' then
         bind_p skip_ws (\<lambda>_.
         bind_p next_string (\<lambda>key.
         bind_p skip_ws (\<lambda>_.
         bind_p (expect_c CHR '':'') (\<lambda>_.
         bind_p skip_ws (\<lambda>_.
         bind_p (camera_field e key cam) (\<lambda>cam'.
         bind_p skip_ws (\<lambda>_.
         return_p (Continue cam'))))))))
       else (\<lambda>s. Inl (UnknownProperty tkey (line s))))"

lemma noninc_fail_line: "noninc (\<lambda>s. Inl (f s))"
  by (simp add: noninc_def)

lemma noninc_camera_field: "noninc (camera_field e key cam)"
  unfolding camera_field_def
  by (intro noninc_if noninc_bind noninc_exit noninc_return noninc_next_number)

lemma consuming_camera_step: "consuming (camera_step e tkey cam)"
  unfolding camera_step_def
  by (intro consuming_bind consuming_next_c noninc_if noninc_bind noninc_return noninc_skip_ws
        noninc_next_string consuming_noninc consuming_expect_c noninc_camera_field noninc_fail_line)

function camera_fields :: "env \<Rightarrow> string \<Rightarrow> Object \<Rightarrow> pstate \<Rightarrow> error + (Object \<times> pstate)" where
  "camera_fields e tkey cam s =
     (case camera_step e tkey cam s of
        Inl err \<Rightarrow> Inl err
      | Inr (Break cam', s') \<Rightarrow> Inr (cam', s')
      | Inr (Continue cam', s') \<Rightarrow> camera_fields e tkey cam' s')"
  by pat_completeness auto
termination
proof (relation "measure (\<lambda>(e, tkey, cam, s). length (inp s))")
  show "wf (measure (\<lambda>(e, tkey, cam, s). length (inp s)))" by simp
next
  fix e :: env and tkey cam s r x s' cam'
  assume "camera_step e tkey cam s = Inr r" "(x, s') = r" "x = Continue cam'"
  then have "camera_step e tkey cam s = Inr (Continue cam', s')" by simp
  with consuming_camera_step [of e tkey cam]
  show "((e, tkey, cam', s'), (e, tkey, cam, s)) \<in> measure (\<lambda>(e, tkey, cam, s). length (inp s))"
    by (simp add: consuming_def)
qed


subsection \<open>Sphere, plane and light\<close>

text \<open>
  The message of an unknown key in the sphere, plane and light branches: printed, and
  the loop goes on (no \<^verbatim>\<open>exit\<close> follows the \<^verbatim>\<open>fprintf\<close>).
\<close>

definition log_unknown :: "string \<Rightarrow> 'a \<Rightarrow> pstate \<Rightarrow> error + ('a \<times> pstate)" where
  "log_unknown key x s = Inr (x, s\<lparr>errlog := errlog s @ [UnknownProperty key (line s)]\<rparr>)"

lemma noninc_log: "noninc (log_unknown key x)"
  by (simp add: noninc_def log_unknown_def)

definition sphere_field :: "env \<Rightarrow> string \<Rightarrow> Object \<Rightarrow> pstate \<Rightarrow> error + (Object \<times> pstate)" where
  "sphere_field e key aSphere =
     (if key = ''color'' then
        (if colorGiven aSphere then exit_p (DuplicateField Sphere Color)
         else bind_p (next_vector e) (\<lambda>keyValue.
              if color_invalid keyValue then exit_p (ValueOutOfRange Sphere Color)
              else return_p (aSphere\<lparr>colorGiven := True,
                     color := [keyValue ! 0, keyValue ! 1, keyValue ! 2]\<rparr>)))
      else if key = ''radius'' then
        (if radiusGiven aSphere then exit_p (DuplicateField Sphere Radius)
         else bind_p (next_number e) (\<lambda>keyValue.
              if dless keyValue (Fin 1) then exit_p (ValueOutOfRange Sphere Radius)
              else return_p (aSphere\<lparr>radiusGiven := True, radius := keyValue\<rparr>)))
      else if key = ''position'' then
        (if positionGiven aSphere then exit_p (DuplicateField Sphere Position)
         else bind_p (next_vector e) (\<lambda>keyValue.
              return_p (aSphere\<lparr>positionGiven := True,
                     position := [keyValue ! 0, keyValue ! 1, keyValue ! 2]\<rparr>)))
      else log_unknown key aSphere)"

text \<open>
  One round of the sphere loop. The last \<^verbatim>\<open>else\<close> of the source closes the chain of
  \<^verbatim>\<open>strcmp\<close> tests (it is the \<open>else\<close> of \<open>sphere_field\<close>), so a character that is neither
  \<^verbatim>\<open>}\<close> nor \<^verbatim>\<open>,\<close> is passed over in silence.
\<close>

definition sphere_step :: "env \<Rightarrow> Object \<Rightarrow> pstate \<Rightarrow> error + (Object step \<times> pstate)" where
  "sphere_step e aSphere =
     bind_p next_c (\<lambda>c.
       if c = CHR ''}'' then return_p (Break aSphere)
       else if c = CHR '','' then
         bind_p skip_ws (\<lambda>_.
         bind_p next_string (\<lambda>key.
         bind_p skip_ws (\<lambda>_.
         bind_p (expect_c CHR '':'') (\<lambda>_.
         bind_p skip_ws (\<lambda>_.
         bind_p (sphere_field e key aSphere) (\<lambda>aSphere'.
         bind_p skip_ws (\<lambda>_.
         return_p (Continue aSphere'))))))))
       else return_p (Continue aSphere))"

lemma noninc_sphere_field: "noninc (sphere_field e key aSphere)"
  unfolding sphere_field_def
  by (intro noninc_if noninc_bind noninc_exit noninc_return noninc_next_number
        noninc_next_vector noninc_log)

lemma consuming_sphere_step: "consuming (sphere_step e aSphere)"
  unfolding sphere_step_def
  by (intro consuming_bind consuming_next_c noninc_if noninc_bind noninc_return noninc_skip_ws
        noninc_next_string consuming_noninc consuming_expect_c noninc_sphere_field)

function sphere_fields :: "env \<Rightarrow> Object \<Rightarrow> pstate \<Rightarrow> error + (Object \<times> pstate)" where
  "sphere_fields e aSphere s =
     (case sphere_step e aSphere s of
        Inl err \<Rightarrow> Inl err
      | Inr (Break aSphere', s') \<Rightarrow> Inr (aSphere', s')
      | Inr (Continue aSphere', s') \<Rightarrow> sphere_fields e aSphere' s')"
  by pat_completeness auto
termination
proof (relation "measure (\<lambda>(e, obj, s). length (inp s))")
  show "wf (measure (\<lambda>(e, obj, s). length (inp s)))" by simp
next
  fix e :: env and obj s r x s' obj'
  assume "sphere_step e obj s = Inr r" "(x, s') = r" "x = Continue obj'"
  then have "sphere_step e obj s = Inr (Continue obj', s')" by simp
  with consuming_sphere_step [of e obj]
  show "((e, obj', s'), (e, obj, s)) \<in> measure (\<lambda>(e, obj, s). length (inp s))"
    by (simp add: consuming_def)
qed

text \<open>
  The plane branch. Its colour test stores neither the colour nor \<^verbatim>\<open>colorGiven\<close>, and
  its second test compares the key with the empty string \<^verbatim>\<open>""\<close>.
\<close>

definition plane_field :: "env \<Rightarrow> string \<Rightarrow> Object \<Rightarrow> pstate \<Rightarrow> error + (Object \<times> pstate)" where
  "plane_field e key aPlane =
     (if key = ''color'' then
        (if colorGiven aPlane then exit_p (DuplicateField Plane Color)
         else bind_p (next_vector e) (\<lambda>keyValue.
              if color_invalid keyValue then exit_p (ValueOutOfRange Plane Color)
              else return_p aPlane))
      else if key = [] then
        (if normalGiven aPlane then exit_p (DuplicateField Plane Normal)
         else bind_p (next_vector e) (\<lambda>keyValue.
              return_p (aPlane\<lparr>normalGiven := True,
                     normal := [keyValue ! 0, keyValue ! 1, keyValue ! 2]\<rparr>)))
      else if key = ''position'' then
        (if positionGiven aPlane then exit_p (DuplicateField Plane Position)
         else bind_p (next_vector e) (\<lambda>keyValue.
              return_p (aPlane\<lparr>positionGiven := True,
                     position := [keyValue ! 0, keyValue ! 1, keyValue ! 2]\<rparr>)))
      else log_unknown key aPlane)"

text \<open>
  One round of the plane loop. The last \<^verbatim>\<open>else\<close> of the source closes the chain of
  \<^verbatim>\<open>strcmp\<close> tests (it is the \<open>else\<close> of \<open>plane_field\<close>), so a character that is neither
  \<^verbatim>\<open>}\<close> nor \<^verbatim>\<open>,\<close> is passed over in silence.
\<close>

definition plane_step :: "env \<Rightarrow> Object \<Rightarrow> pstate \<Rightarrow> error + (Object step \<times> pstate)" where
  "plane_step e aPlane =
     bind_p next_c (\<lambda>c.
       if c = CHR ''}'' then return_p (Break aPlane)
       else if c = CHR '','' then
         bind_p skip_ws (\<lambda>_.
         bind_p next_string (\<lambda>key.
         bind_p skip_ws (\<lambda>_.
         bind_p (expect_c CHR '':'') (\<lambda>_.
         bind_p skip_ws (\<lambda>_.
         bind_p (plane_field e key aPlane) (\<lambda>aPlane'.
         bind_p skip_ws (\<lambda>_.
         return_p (Continue aPlane'))))))))
       else return_p (Continue aPlane))"

lemma noninc_plane_field: "noninc (plane_field e key aPlane)"
  unfolding plane_field_def
  by (intro noninc_if noninc_bind noninc_exit noninc_return noninc_next_number
        noninc_next_vector noninc_log)

lemma consuming_plane_step: "consuming (plane_step e aPlane)"
  unfolding plane_step_def
  by (intro consuming_bind consuming_next_c noninc_if noninc_bind noninc_return noninc_skip_ws
        noninc_next_string consuming_noninc consuming_expect_c noninc_plane_field)

function plane_fields :: "env \<Rightarrow> Object \<Rightarrow> pstate \<Rightarrow> error + (Object \<times> pstate)" where
  "plane_fields e aPlane s =
     (case plane_step e aPlane s of
        Inl err \<Rightarrow> Inl err
      | Inr (Break aPlane', s') \<Rightarrow> Inr (aPlane', s')
      | Inr (Continue aPlane', s') \<Rightarrow> plane_fields e aPlane' s')"
  by pat_completeness auto
termination
proof (relation "measure (\<lambda>(e, obj, s). length (inp s))")
  show "wf (measure (\<lambda>(e, obj, s). length (inp s)))" by simp
next
  fix e :: env and obj s r x s' obj'
  assume "plane_step e obj s = Inr r" "(x, s') = r" "x = Continue obj'"
  then have "plane_step e obj s = Inr (Continue obj', s')" by simp
  with consuming_plane_step [of e obj]
  show "((e, obj', s'), (e, obj, s)) \<in> measure (\<lambda>(e, obj, s). length (inp s))"
    by (simp add: consuming_def)
qed

text \<open>The light branch (its local object is also called \<^verbatim>\<open>aPlane\<close> in the source).\<close>

definition light_field :: "env \<Rightarrow> string \<Rightarrow> Object \<Rightarrow> pstate \<Rightarrow> error + (Object \<times> pstate)" where
  "light_field e key aPlane =
     (if key = ''color'' then
        (if colorGiven aPlane then exit_p (DuplicateField Light Color)
         else bind_p (next_vector e) (\<lambda>keyValue.
              if color_invalid keyValue then exit_p (ValueOutOfRange Light Color)
              else return_p (aPlane\<lparr>colorGiven := True,
                     color := [keyValue ! 0, keyValue ! 1, keyValue ! 2]\<rparr>)))
      else if key = ''normal'' then
        (if normalGiven aPlane then exit_p (DuplicateField Light Normal)
         else bind_p (next_vector e) (\<lambda>keyValue.
              return_p (aPlane\<lparr>normalGiven := True,
                     normal := [keyValue ! 0, keyValue ! 1, keyValue ! 2]\<rparr>)))
      else if key = ''position'' then
        (if positionGiven aPlane then exit_p (DuplicateField Light Position)
         else bind_p (next_vector e) (\<lambda>keyValue.
              return_p (aPlane\<lparr>positionGiven := True,
                     position := [keyValue ! 0, keyValue ! 1, keyValue ! 2]\<rparr>)))
      else log_unknown key aPlane)"

text \<open>
  One round of the light loop. The last \<^verbatim>\<open>else\<close> of the source closes the chain of
  \<^verbatim>\<open>strcmp\<close> tests (it is the \<open>else\<close> of \<open>light_field\<close>), so a character that is neither
  \<^verbatim>\<open>}\<close> nor \<^verbatim>\<open>,\<close> is passed over in silence.
\<close>

definition light_step :: "env \<Rightarrow> Object \<Rightarrow> pstate \<Rightarrow> error + (Object step \<times> pstate)" where
  "light_step e aPlane =
     bind_p next_c (\<lambda>c.
       if c = CHR ''}'' then return_p (Break aPlane)
       else if c = CHR '','' then
         bind_p skip_ws (\<lambda>_.
         bind_p next_string (\<lambda>key.
         bind_p skip_ws (\<lambda>_.
         bind_p (expect_c CHR '':'') (\<lambda>_.
         bind_p skip_ws (\<lambda>_.
         bind_p (light_field e key aPlane) (\<lambda>aPlane'.
         bind_p skip_ws (\<lambda>_.
         return_p (Continue aPlane'))))))))
       else return_p (Continue aPlane))"

lemma noninc_light_field: "noninc (light_field e key aPlane)"
  unfolding light_field_def
  by (intro noninc_if noninc_bind noninc_exit noninc_return noninc_next_number
        noninc_next_vector noninc_log)

lemma consuming_light_step: "consuming (light_step e aPlane)"
  unfolding light_step_def
  by (intro consuming_bind consuming_next_c noninc_if noninc_bind noninc_return noninc_skip_ws
        noninc_next_string consuming_noninc consuming_expect_c noninc_light_field)

function light_fields :: "env \<Rightarrow> Object \<Rightarrow> pstate \<Rightarrow> error + (Object \<times> pstate)" where
  "light_fields e aPlane s =
     (case light_step e aPlane s of
        Inl err \<Rightarrow> Inl err
      | Inr (Break aPlane', s') \<Rightarrow> Inr (aPlane', s')
      | Inr (Continue aPlane', s') \<Rightarrow> light_fields e aPlane' s')"
  by pat_completeness auto
termination
proof (relation "measure (\<lambda>(e, obj, s). length (inp s))")
  show "wf (measure (\<lambda>(e, obj, s). length (inp s)))" by simp
next
  fix e :: env and obj s r x s' obj'
  assume "light_step e obj s = Inr r" "(x, s') = r" "x = Continue obj'"
  then have "light_step e obj s = Inr (Continue obj', s')" by simp
  with consuming_light_step [of e obj]
  show "((e, obj', s'), (e, obj, s)) \<in> measure (\<lambda>(e, obj, s). length (inp s))"
    by (simp add: consuming_def)
qed

subsection \<open>The objects of the array\<close>

text \<open>
  \<^verbatim>\<open>objectArray[i] = obj\<close>: the array is the list of the stores made, each with its index.
  \<^verbatim>\<open>malloc\<close> gave room for 1000 objects.
\<close>

definition store :: "nat \<Rightarrow> Object \<Rightarrow> (nat \<times> Object) list \<Rightarrow> pstate \<Rightarrow>
    error + ((nat \<times> Object) list \<times> pstate)" where
  "store i obj objectArray =
     (if i < 1000 then return_p (objectArray @ [(i, obj)]) else exit_p (ObjectArrayOverflow i))"

text \<open>
  The body of \<^verbatim>\<open>if (c == '{')\<close> in the loop of \<^verbatim>\<open>read_scene\<close>, up to the
  \<^verbatim>\<open>skip_ws\<close> that ends it. It returns the camera slot \<^verbatim>\<open>cam\<close> and the array.
\<close>

definition read_object :: "env \<Rightarrow> nat \<Rightarrow> Object \<Rightarrow> (nat \<times> Object) list \<Rightarrow> pstate \<Rightarrow>
    error + ((Object \<times> (nat \<times> Object) list) \<times> pstate)" where
  "read_object e i cam objectArray =
     bind_p skip_ws (\<lambda>_.
     bind_p next_string (\<lambda>key.
     if key \<noteq> ''type'' then (\<lambda>s. Inl (ExpectedTypeKey (line s)))
     else
     bind_p skip_ws (\<lambda>_.
     bind_p (expect_c CHR '':'') (\<lambda>_.
     bind_p skip_ws (\<lambda>_.
     bind_p next_string (\<lambda>val.
     bind_p
       (if val = ''camera'' then
          bind_p (camera_fields e key (cam\<lparr>heightGiven := False, widthGiven := False\<rparr>)) (\<lambda>cam'.
            if \<not> heightGiven cam' \<or> \<not> widthGiven cam'
            then exit_p (MissingRequiredField Camera [])
            else bind_p (store i cam' objectArray) (\<lambda>arr. return_p (cam', arr)))
        else if val = ''sphere'' then
          bind_p (sphere_fields e ((garbage_object e)\<lparr>otype := val, colorGiven := False,
                     positionGiven := False, radiusGiven := False\<rparr>)) (\<lambda>aSphere.
            if \<not> positionGiven aSphere \<or> \<not> colorGiven aSphere \<or> \<not> radiusGiven aSphere
            then exit_p (MissingRequiredField Sphere
                   [positionGiven aSphere, colorGiven aSphere, radiusGiven aSphere])
            else bind_p (store i aSphere objectArray) (\<lambda>arr. return_p (cam, arr)))
        else if val = ''plane'' then
          bind_p (plane_fields e ((garbage_object e)\<lparr>otype := val, colorGiven := False,
                     positionGiven := False\<rparr>)) (\<lambda>aPlane.
            if \<not> positionGiven aPlane \<or> \<not> colorGiven aPlane \<or> \<not> normalGiven aPlane
            then exit_p (MissingRequiredField Plane [])
            else bind_p (store i aPlane objectArray) (\<lambda>arr. return_p (cam, arr)))
        else if val = ''light'' then
          bind_p (light_fields e ((garbage_object e)\<lparr>otype := val, colorGiven := False,
                     positionGiven := False\<rparr>)) (\<lambda>aPlane. return_p (cam, objectArray))
        else (\<lambda>s. Inl (UnknownType val (line s))))
       (\<lambda>r. bind_p skip_ws (\<lambda>_. return_p r))))))))"

text \<open>
  The program ends in \<^verbatim>\<open>exit(0)\<close> or in \<^verbatim>\<open>exit(1)\<close> after a message; \<^verbatim>\<open>read_scene\<close> has
  no \<^verbatim>\<open>return\<close>. \<open>Exit0\<close> shows the array and the stream as they were at the exit.
\<close>

datatype outcome = Exit0 "(nat \<times> Object) list" pstate | Exit1 error

text \<open>
  The \<^verbatim>\<open>while (1)\<close> loop of \<^verbatim>\<open>read_scene\<close>. It reads with \<^verbatim>\<open>fgetc\<close>, not \<^verbatim>\<open>next_c\<close>:
  at the end of the file the character is \<^verbatim>\<open>EOF\<close> for ever and the loop does not end,
  which is the value \<open>None\<close>. The counter \<^verbatim>\<open>i\<close> is an \<^verbatim>\<open>int\<close> in C; its overflow after
  \<open>2^31\<close> rounds is not modelled.
\<close>

partial_function (option) scene_loop ::
    "env \<Rightarrow> nat \<Rightarrow> Object \<Rightarrow> (nat \<times> Object) list \<Rightarrow> pstate \<Rightarrow> outcome option" where
  "scene_loop e i cam objectArray s =
     (case fgetc s of (c, s1) \<Rightarrow>
        if c = Some CHR '']'' then Some (Exit0 objectArray s1)
        else if c = Some CHR ''{'' then
          (case read_object e i cam objectArray s1 of
             Inl err \<Rightarrow> Some (Exit1 err)
           | Inr ((cam', arr), s2) \<Rightarrow> scene_loop e (i + 1) cam' arr s2)
        else scene_loop e (i + 1) cam objectArray s1)"

declare scene_loop.simps [code]

text \<open>
  \<^verbatim>\<open>fopen\<close>: the stream at the start of the text, both indicators clear; the global
  \<^verbatim>\<open>line\<close> is 1 when \<^verbatim>\<open>main\<close> calls \<^verbatim>\<open>read_scene\<close>.
\<close>

definition fopen :: "string \<Rightarrow> pstate" where
  "fopen txt = \<lparr>inp = txt, eof = False, ioerr = False, line = 1, errlog = []\<rparr>"

text \<open>
  \<^verbatim>\<open>read_scene\<close> on the content of the file (\<open>None\<close>: the file cannot be opened).
  The test for the empty scene reads one character with \<^verbatim>\<open>fgetc\<close> and does not put it
  back.
\<close>

definition read_scene :: "env \<Rightarrow> string option \<Rightarrow> outcome option" where
  "read_scene e file =
     (case file of
        None \<Rightarrow> Some (Exit1 CouldNotOpen)
      | Some txt \<Rightarrow>
          (case bind_p skip_ws (\<lambda>_. bind_p (expect_c CHR ''['') (\<lambda>_. skip_ws)) (fopen txt) of
             Inl err \<Rightarrow> Some (Exit1 err)
           | Inr (_, s) \<Rightarrow>
               (case fgetc s of (c, s1) \<Rightarrow>
                  if c = Some CHR '']'' then Some (Exit1 EmptySceneRejected)
                  else scene_loop e 0 ((garbage_object e)\<lparr>height := Fin (- 1), width := Fin (- 1)\<rparr>)
                         [] s1)))"

section \<open>A scanner to run the loader on\<close>

text \<open>
  An instance of \<open>fscanf_lf\<close> for running the model on a text: it skips white space and
  reads a sign, digits, and a point followed by digits, and converts the decimal value
  to the nearest double. It is enough for the scenes below; exponents, hexadecimal
  literals and the words \<^verbatim>\<open>inf\<close> and \<^verbatim>\<open>nan\<close>, which the C library also accepts, are left
  out. No theorem about all scanners depends on it.
\<close>

definition is_digit :: "char \<Rightarrow> bool" where
  "is_digit c = ((48::nat) \<le> of_char c \<and> of_char c \<le> (57::nat))"

definition digits_value :: "char list \<Rightarrow> nat" where
  "digits_value ds = foldl (\<lambda>n c. 10 * n + (of_char c - 48)) 0 ds"

definition scan_decimal :: "char list \<Rightarrow> scan" where
  "scan_decimal cs =
     (let r1 = dropWhile isspace cs;
          neg = (r1 \<noteq> [] \<and> hd r1 = CHR ''-'');
          signed = (r1 \<noteq> [] \<and> (hd r1 = CHR ''-'' \<or> hd r1 = CHR ''+''));
          r2 = (if signed then tl r1 else r1);
          ip = takeWhile is_digit r2;
          r3 = dropWhile is_digit r2;
          dotted = (r3 \<noteq> [] \<and> hd r3 = CHR ''.'');
          fp = (if dotted then takeWhile is_digit (tl r3) else []);
          r4 = (if dotted then dropWhile is_digit (tl r3) else r3);
          mag = real (digits_value ip) + real (digits_value fp) / 10 ^ length fp
      in \<lparr>matched = (if ip = [] \<and> fp = [] then None
                     else Some (fl neg (if neg then - mag else mag))),
          consumed = length cs - length r4,
          hit_eof = (r4 = []),
          hit_error = False\<rparr>)"

text \<open>An environment for closed examples: the scanner above and some garbage.\<close>

definition garbage_example :: Object where
  "garbage_example =
     \<lparr>otype = [], color = [], position = [], colorGiven = True, positionGiven = True,
      width = NaN, height = NaN, widthGiven = True, heightGiven = True,
      normal = [], normalGiven = True, radius = NaN, radiusGiven = True\<rparr>"

definition env_example :: env where
  "env_example = \<lparr>fscanf_lf = scan_decimal, garbage_value = Fin 7, garbage_object = garbage_example\<rparr>"

text \<open>Scene texts, all of them well-formed for the grammar of the specification.\<close>

definition scene_camera :: string where
  \<open>scene_camera = ''[{"type": "camera", "width": 2, "height": 2}]''\<close>

definition scene_camera_sphere :: string where
  \<open>scene_camera_sphere = ''[{"type": "camera", "width": 2, "height": 2}, {"type": "sphere", "color": [1, 0, 0], "position": [0, 0, -5], "radius": 1}]''\<close>

definition scene_sphere_two_radii :: string where
  \<open>scene_sphere_two_radii = ''[{"type": "camera", "width": 2, "height": 2}, {"type": "sphere", "radius": 1, "radius": 2}]''\<close>

definition scene_plane_two_colors :: string where
  \<open>scene_plane_two_colors = ''[{"type": "camera", "width": 2, "height": 2}, {"type": "plane", "color": [1, 2, 3], "color": [4, 5, 6], "position": [0, 0, 0]}]''\<close>

definition scene_plane_complete :: string where
  \<open>scene_plane_complete = ''[{"type": "camera", "width": 2, "height": 2}, {"type": "plane", "position": [0, 0, 0], "color": [1, 2, 3], "normal": [0, 1, 0]}]''\<close>

definition scene_sphere_unknown_key :: string where
  \<open>scene_sphere_unknown_key = ''[{"type": "camera", "width": 2, "height": 2}, {"type": "sphere", "foo": 7, "color": [1, 0, 0], "position": [0, 0, -5], "radius": 1}]''\<close>

definition scene_camera_unknown_key :: string where
  \<open>scene_camera_unknown_key = ''[{"type": "camera", "width": 2, "height": 2}, {"type": "camera", "foo": 7, "width": 2, "height": 2}]''\<close>

definition scene_sphere_color_256 :: string where
  \<open>scene_sphere_color_256 = ''[{"type": "sphere", "color": [256, 0, 0], "position": [0, 0, -5], "radius": 1}]''\<close>




section \<open>Rounding to the nearest double\<close>

subsection \<open>Rounding to the nearest integer, ties to even\<close>

lemma rhe_of_int [simp]: "rhe (of_int k) = k"
  by (simp add: rhe_def)

lemma rhe_floor: "\<lfloor>q\<rfloor> \<le> rhe q" "rhe q \<le> \<lfloor>q\<rfloor> + 1"
  by (simp_all add: rhe_def Let_def)

lemma rhe_ge: "of_int k \<le> q \<Longrightarrow> k \<le> rhe q"
  using rhe_floor(1) [of q] by (meson le_floor_iff order_trans)

lemma rhe_le: "q \<le> of_int k \<Longrightarrow> rhe q \<le> k"
proof (cases "q = of_int k")
  case True
  then show ?thesis by simp
next
  case False
  assume "q \<le> of_int k"
  with False have "q < of_int k" by simp
  then have "\<lfloor>q\<rfloor> < k" by (simp add: floor_less_iff)
  with rhe_floor(2) [of q] show ?thesis by simp
qed

lemma rhe_mono: "q \<le> q' \<Longrightarrow> rhe q \<le> rhe q'"
proof -
  assume le: "q \<le> q'"
  then have fl: "\<lfloor>q\<rfloor> \<le> \<lfloor>q'\<rfloor>" by (rule floor_mono)
  show ?thesis
  proof (cases "\<lfloor>q\<rfloor> = \<lfloor>q'\<rfloor>")
    case True
    with le show ?thesis by (auto simp: rhe_def Let_def)
  next
    case False
    with fl have "\<lfloor>q\<rfloor> + 1 \<le> \<lfloor>q'\<rfloor>" by simp
    with rhe_floor(2) [of q] rhe_floor(1) [of q'] show ?thesis by simp
  qed
qed

lemma rhe_minus: "rhe (- q) = - rhe q"
proof (cases "q \<in> \<int>")
  case True
  then obtain k where "q = of_int k" by (auto elim: Ints_cases)
  then have "- q = of_int (- k)" by simp
  then show ?thesis using \<open>q = of_int k\<close> by (simp only: rhe_of_int)
next
  case False
  then have "of_int \<lfloor>q\<rfloor> \<noteq> q" by (metis Ints_of_int)
  then have lt: "of_int \<lfloor>q\<rfloor> < q" using of_int_floor_le [of q] by linarith
  have gt: "q < of_int \<lfloor>q\<rfloor> + 1" by linarith
  have f: "\<lfloor>- q\<rfloor> = - \<lfloor>q\<rfloor> - 1"
  proof (rule floor_unique)
    show "of_int (- \<lfloor>q\<rfloor> - 1) \<le> - q" by (simp, linarith)
    show "- q < of_int (- \<lfloor>q\<rfloor> - 1) + 1" using lt by (simp, linarith?)
  qed
  show ?thesis
    unfolding rhe_def Let_def f using lt gt by (auto simp: algebra_simps)
qed

subsection \<open>Doubles round to themselves; rounding is monotone\<close>

lemma ulp_exp_minus [simp]: "ulp_exp (- x) = ulp_exp x"
  by (simp add: ulp_exp_def)

lemma floor_log2_bounds:
  assumes "x \<noteq> 0"
  shows "2 powr of_int \<lfloor>log 2 \<bar>x\<bar>\<rfloor> \<le> \<bar>x\<bar>" and "\<bar>x\<bar> < 2 powr of_int (\<lfloor>log 2 \<bar>x\<bar>\<rfloor> + 1)"
  using assms floor_log_eq_powr_iff [of "\<bar>x\<bar>" 2 "\<lfloor>log 2 \<bar>x\<bar>\<rfloor>"] by simp_all

lemma ulp_exp_upper:
  assumes "x \<noteq> 0"
  shows "\<bar>x\<bar> < 2 powr of_int (ulp_exp x + 53)"
proof -
  have "\<lfloor>log 2 \<bar>x\<bar>\<rfloor> + 1 \<le> ulp_exp x + 53" by (simp add: ulp_exp_def)
  then have "(2::real) powr of_int (\<lfloor>log 2 \<bar>x\<bar>\<rfloor> + 1) \<le> 2 powr of_int (ulp_exp x + 53)"
    by (simp only: powr_le_cancel_iff one_less_numeral_iff semiring_norm of_int_le_iff)
  with floor_log2_bounds(2) [OF assms] show ?thesis by linarith
qed

lemma ulp_exp_lower:
  assumes "x \<noteq> 0" and "- 1074 < ulp_exp x"
  shows "2 powr of_int (ulp_exp x + 52) \<le> \<bar>x\<bar>"
proof -
  from assms(2) have "ulp_exp x + 52 = \<lfloor>log 2 \<bar>x\<bar>\<rfloor>" by (simp add: ulp_exp_def max_def split: if_splits)
  with floor_log2_bounds(1) [OF assms(1)] show ?thesis by simp
qed

lemma ulp_exp_least:
  assumes "x \<noteq> 0" and "\<bar>x\<bar> < 2 powr of_int (e + 53)" and "- 1074 \<le> e"
  shows "ulp_exp x \<le> e"
proof -
  have "2 powr of_int \<lfloor>log 2 \<bar>x\<bar>\<rfloor> < (2::real) powr of_int (e + 53)"
    using floor_log2_bounds(1) [OF assms(1)] assms(2) by linarith
  then have "\<lfloor>log 2 \<bar>x\<bar>\<rfloor> < e + 53"
    by (simp only: powr_less_cancel_iff one_less_numeral_iff semiring_norm of_int_less_iff)
  with assms(3) show ?thesis by (simp add: ulp_exp_def)
qed

lemma ulp_exp_mono:
  assumes "x \<noteq> 0" and "\<bar>x\<bar> \<le> \<bar>y\<bar>"
  shows "ulp_exp x \<le> ulp_exp y"
proof -
  from assms have "log 2 \<bar>x\<bar> \<le> log 2 \<bar>y\<bar>" by simp
  then have "\<lfloor>log 2 \<bar>x\<bar>\<rfloor> \<le> \<lfloor>log 2 \<bar>y\<bar>\<rfloor>" by (rule floor_mono)
  then show ?thesis by (simp add: ulp_exp_def)
qed

lemma powr_int_diff:
  assumes "u \<le> e"
  shows "(2::real) powr of_int e / 2 powr of_int u = of_int (2 ^ nat (e - u))"
proof -
  have "(2::real) powr of_int e / 2 powr of_int u = 2 powr (of_int e - of_int u)"
    by (simp add: powr_diff)
  also have "of_int e - of_int u = real (nat (e - u))" using assms by simp
  also have "(2::real) powr real (nat (e - u)) = 2 ^ nat (e - u)" by (simp add: powr_realpow)
  finally show ?thesis by simp
qed

lemma round64_grid:
  assumes "x = of_int m * 2 powr of_int e" and "ulp_exp x \<le> e"
  shows "round64 x = x"
proof (cases "x = 0")
  case True
  then show ?thesis by (simp add: round64_def)
next
  case False
  let ?u = "ulp_exp x"
  have "x / 2 powr of_int ?u = of_int m * (2 powr of_int e / 2 powr of_int ?u)"
    by (simp add: assms(1))
  also have "\<dots> = of_int (m * 2 ^ nat (e - ?u))"
    by (simp add: powr_int_diff [OF assms(2)])
  finally have q: "x / 2 powr of_int ?u = of_int (m * 2 ^ nat (e - ?u))" .
  have "round64 x = of_int (m * 2 ^ nat (e - ?u)) * 2 powr of_int ?u"
    using False by (simp only: round64_def q rhe_of_int if_False)
  also have "\<dots> = x / 2 powr of_int ?u * 2 powr of_int ?u" by (simp only: q)
  also have "\<dots> = x" by simp
  finally show ?thesis .
qed

lemma round64_repr:
  assumes "\<bar>m\<bar> < 2 ^ 53" and "- 1074 \<le> e"
  shows "round64 (of_int m * 2 powr of_int e) = of_int m * 2 powr of_int e"
proof (cases "m = 0")
  case True
  then show ?thesis by (simp add: round64_def)
next
  case False
  let ?x = "of_int m * 2 powr of_int e :: real"
  have nz: "?x \<noteq> 0" using False by simp
  have "\<bar>?x\<bar> = of_int \<bar>m\<bar> * 2 powr of_int e" by (simp add: abs_mult)
  also have "\<dots> < 2 ^ 53 * 2 powr of_int e"
    using assms(1) by (intro mult_strict_right_mono) (simp_all flip: of_int_less_iff)
  also have "\<dots> = 2 powr of_int (e + 53)"
    by (simp add: powr_add powr_realpow [symmetric] mult.commute)
  finally have "\<bar>?x\<bar> < 2 powr of_int (e + 53)" .
  from ulp_exp_least [OF nz this assms(2)] show ?thesis
    by (intro round64_grid [of _ m e]) simp_all
qed

lemma round64_int:
  assumes "x \<in> \<int>" and "\<bar>x\<bar> < 2 ^ 53"
  shows "round64 x = x"
proof -
  from assms(1) obtain m where x: "x = of_int m" by (auto elim: Ints_cases)
  with assms(2) have "\<bar>m\<bar> < 2 ^ 53" by (simp flip: of_int_less_iff)
  from round64_repr [OF this, of 0] x show ?thesis by simp
qed

lemma round64_minus: "round64 (- x) = - round64 x"
  by (simp add: round64_def rhe_minus)

lemma round64_nonneg: "0 \<le> x \<Longrightarrow> 0 \<le> round64 x"
  using rhe_ge [of 0 "x / 2 powr of_int (ulp_exp x)"] by (simp add: round64_def)

lemma round64_mono_pos:
  assumes "0 < x" and "x \<le> y"
  shows "round64 x \<le> round64 y"
proof -
  let ?u = "ulp_exp x" and ?v = "ulp_exp y"
  have nz: "x \<noteq> 0" "y \<noteq> 0" using assms by simp_all
  have uv: "?u \<le> ?v" using assms by (intro ulp_exp_mono) simp_all
  have rx: "round64 x = of_int (rhe (x / 2 powr of_int ?u)) * 2 powr of_int ?u"
    and ry: "round64 y = of_int (rhe (y / 2 powr of_int ?v)) * 2 powr of_int ?v"
    using nz by (simp_all add: round64_def)
  show ?thesis
  proof (cases "?u = ?v")
    case True
    have "x / 2 powr of_int ?u \<le> y / 2 powr of_int ?u"
      using assms(2) by (simp add: divide_right_mono)
    then have "rhe (x / 2 powr of_int ?u) \<le> rhe (y / 2 powr of_int ?u)" by (rule rhe_mono)
    then have "(of_int (rhe (x / 2 powr of_int ?u)) :: real) \<le> of_int (rhe (y / 2 powr of_int ?u))"
      by simp
    then show ?thesis unfolding rx ry True [symmetric]
      by (intro mult_right_mono) simp_all
  next
    case False
    with uv have lt: "?u + 1 \<le> ?v" by simp
    then have low: "- 1074 < ?v" by (simp add: ulp_exp_def)
    have "x < 2 powr of_int (?u + 53)" using ulp_exp_upper [OF nz(1)] assms(1) by simp
    then have "x / 2 powr of_int ?u < 2 powr of_int (?u + 53) / 2 powr of_int ?u"
      by (simp add: divide_strict_right_mono)
    also have "\<dots> = of_int (2 ^ 53)"
      using powr_int_diff [of ?u "?u + 53"] by simp
    finally have "rhe (x / 2 powr of_int ?u) \<le> 2 ^ 53" by (intro rhe_le) simp
    then have "(of_int (rhe (x / 2 powr of_int ?u)) :: real) \<le> of_int (2 ^ 53)"
      by (simp only: of_int_le_iff)
    then have "round64 x \<le> of_int (2 ^ 53) * 2 powr of_int ?u"
      unfolding rx by (intro mult_right_mono) simp_all
    also have "\<dots> = 2 powr of_int (?u + 53)"
      by (simp add: powr_add powr_realpow [symmetric] mult.commute)
    also have "\<dots> \<le> 2 powr of_int (?v + 52)"
      using lt by (simp only: powr_le_cancel_iff one_less_numeral_iff semiring_norm of_int_le_iff)
    finally have upper: "round64 x \<le> 2 powr of_int (?v + 52)" .
    have "2 powr of_int (?v + 52) \<le> y" using ulp_exp_lower [OF nz(2) low] assms by simp
    then have "2 powr of_int (?v + 52) / 2 powr of_int ?v \<le> y / 2 powr of_int ?v"
      by (simp add: divide_right_mono)
    moreover have "2 powr of_int (?v + 52) / 2 powr of_int ?v = (of_int (2 ^ 52) :: real)"
      using powr_int_diff [of ?v "?v + 52"] by simp
    ultimately have "2 ^ 52 \<le> rhe (y / 2 powr of_int ?v)" by (intro rhe_ge) simp
    then have "(of_int (2 ^ 52) :: real) \<le> of_int (rhe (y / 2 powr of_int ?v))"
      by (simp only: of_int_le_iff)
    then have "of_int (2 ^ 52) * 2 powr of_int ?v \<le> round64 y"
      unfolding ry by (intro mult_right_mono) simp_all
    moreover have "of_int (2 ^ 52) * 2 powr of_int ?v = (2::real) powr of_int (?v + 52)"
      by (simp add: powr_add powr_realpow [symmetric] mult.commute)
    ultimately have "2 powr of_int (?v + 52) \<le> round64 y" by simp
    with upper show ?thesis by linarith
  qed
qed

lemma round64_mono:
  assumes "x \<le> y"
  shows "round64 x \<le> round64 y"
proof -
  consider "0 < x" | "y < 0" | "x \<le> 0" "0 \<le> y" by linarith
  then show ?thesis
  proof cases
    case 1
    from 1 assms show ?thesis by (rule round64_mono_pos)
  next
    case 2
    with assms have "round64 (- y) \<le> round64 (- x)" by (intro round64_mono_pos) simp_all
    then show ?thesis by (simp add: round64_minus)
  next
    case 3
    from 3(1) have "0 \<le> round64 (- x)" by (intro round64_nonneg) simp
    then have "round64 x \<le> 0" by (simp add: round64_minus)
    with round64_nonneg [OF 3(2)] show ?thesis by linarith
  qed
qed

subsection \<open>Signs and order of the results of operations\<close>

lemma max_double_pos: "0 < max_double" "2 ^ 53 \<le> max_double"
  by (simp_all add: max_double_def)

lemma fl_zero [simp]: "fl z 0 = mk_zero z"
  by (simp add: fl_def)

lemma fl_int:
  assumes "x \<in> \<int>" and "x \<noteq> 0" and "\<bar>x\<bar> < 2 ^ 53"
  shows "fl z x = Fin x"
proof -
  have "round64 x = x" using assms by (intro round64_int)
  moreover have "\<not> max_double < \<bar>x\<bar>" using assms(3) max_double_pos(2) by linarith
  ultimately show ?thesis using assms(2) by (simp add: fl_def)
qed

lemma round64_zero_iff_sign:
  shows "0 < x \<Longrightarrow> 0 \<le> round64 x" and "x < 0 \<Longrightarrow> round64 x \<le> 0"
  using round64_nonneg [of x] round64_nonneg [of "- x"] by (simp_all add: round64_minus)

lemma signbit_fl: "signbit (fl z x) = (if x = 0 then z else x < 0)"
proof (cases "x = 0")
  case True
  then show ?thesis by (simp add: mk_zero_def)
next
  case False
  then consider "0 < x" | "x < 0" by linarith
  then show ?thesis
  proof cases
    case 1
    with round64_zero_iff_sign(1) [OF 1] show ?thesis
      by (auto simp: fl_def Let_def mk_zero_def mk_inf_def)
  next
    case 2
    with round64_zero_iff_sign(2) [OF 2] show ?thesis
      by (auto simp: fl_def Let_def mk_zero_def mk_inf_def)
  qed
qed

lemma fl_not_nan [simp]: "\<not> is_nan (fl z x)"
  by (simp add: fl_def Let_def mk_zero_def mk_inf_def)

text \<open>
  For the order of doubles: \<open>ext\<close> places the infinities beyond the finite doubles, and
  every double an operation delivers is within \<open>max_double\<close> (\<open>wf_dbl\<close>).
\<close>

fun ext :: "dbl \<Rightarrow> real" where
  "ext (Fin r) = r"
| "ext NegZero = 0"
| "ext PInf = 2 * max_double"
| "ext NInf = - (2 * max_double)"
| "ext NaN = 0"

fun wf_dbl :: "dbl \<Rightarrow> bool" where
  "wf_dbl (Fin r) = (\<bar>r\<bar> \<le> max_double)"
| "wf_dbl _ = True"

lemma dless_ext:
  "wf_dbl x \<Longrightarrow> wf_dbl y \<Longrightarrow> \<not> is_nan x \<Longrightarrow> \<not> is_nan y \<Longrightarrow> dless x y = (ext x < ext y)"
  using max_double_pos(1) by (cases x; cases y) (auto simp: dless_def)

definition clamp :: "real \<Rightarrow> real" where
  "clamp r = (if max_double < r then 2 * max_double
              else if r < - max_double then - (2 * max_double) else r)"

lemma clamp_mono: "r \<le> r' \<Longrightarrow> clamp r \<le> clamp r'"
  using max_double_pos(1) by (auto simp: clamp_def)

lemma wf_dbl_mk [simp]: "wf_dbl (mk_zero z)" "wf_dbl (mk_inf z)"
  using max_double_pos(1) by (simp_all add: mk_zero_def mk_inf_def)

lemma signbit_mk [simp]: "signbit (mk_zero z) = z" "signbit (mk_inf z) = z"
  by (simp_all add: mk_zero_def mk_inf_def)

lemma wf_dbl_fl [simp]: "wf_dbl (fl z x)"
  by (simp add: fl_def Let_def)

lemma ext_fl: "ext (fl z x) = clamp (round64 x)"
proof (cases "x = 0")
  case True
  then show ?thesis using max_double_pos(1) by (simp add: mk_zero_def clamp_def round64_def)
next
  case False
  then consider "0 < x" | "x < 0" by linarith
  then show ?thesis
  proof cases
    case 1
    with round64_zero_iff_sign(1) [OF 1] max_double_pos(1) show ?thesis
      by (auto simp: fl_def Let_def mk_zero_def mk_inf_def clamp_def)
  next
    case 2
    with round64_zero_iff_sign(2) [OF 2] max_double_pos(1) show ?thesis
      by (auto simp: fl_def Let_def mk_zero_def mk_inf_def clamp_def)
  qed
qed

lemma fl_mono: "x \<le> y \<Longrightarrow> \<not> dless (fl z' y) (fl z x)"
  using clamp_mono [OF round64_mono, of x y] by (simp add: dless_ext ext_fl)

lemma wf_dbl_dadd [simp]: "wf_dbl (dadd x y)"
  by (cases x; cases y) (simp_all add: dadd_def)

lemma wf_dbl_dmul [simp]: "wf_dbl (dmul x y)"
  by (simp add: dmul_def)

lemma wf_dbl_ddiv [simp]: "wf_dbl (ddiv x y)"
  by (simp add: ddiv_def)

lemma signbit_sqr [simp]: "\<not> signbit (sqr v)"
  by (cases v) (auto simp: sqr_def dmul_def signbit_fl mult_less_0_iff)

lemma signbit_dadd_nonneg: "\<not> signbit x \<Longrightarrow> \<not> signbit y \<Longrightarrow> \<not> signbit (dadd x y)"
  by (cases x; cases y) (auto simp: dadd_def signbit_fl)

lemma signbit_dmul_two: "\<not> signbit x \<Longrightarrow> \<not> signbit (dmul (Fin 2) x)"
  by (cases x) (auto simp: dmul_def signbit_fl mult_less_0_iff)

lemma dsqrt_nonneg [simp]: "\<not> dless (dsqrt y) (Fin 0)"
proof (cases y)
  case (Fin r)
  show ?thesis
  proof (cases "r < 0")
    case True
    with Fin show ?thesis by (simp add: dsqrt_def dless_def)
  next
    case False
    then have "0 \<le> sqrt r" by simp
    from fl_mono [OF this, of False False] Fin False show ?thesis
      by (simp add: dsqrt_def mk_zero_def)
  qed
qed (simp_all add: dsqrt_def dless_def)

subsection \<open>The two roots of the sphere routine are in order\<close>

lemma fl_nonpos: "x \<le> 0 \<Longrightarrow> \<not> dless (Fin 0) (fl z x)"
  using fl_mono [of x 0 False z] by (simp add: mk_zero_def)

lemma numerator_order:
  assumes pos: "dless (Fin 0) (dsub X S)" and S0: "\<not> dless S (Fin 0)"
  shows "is_nan (dadd X S) \<or> \<not> dless (dadd X S) (dsub X S)"
proof -
  from pos have nn: "\<not> is_nan X" "\<not> is_nan S"
    by (cases X; cases S; simp add: dless_def dsub_def dadd_def dneg_def split: if_splits)+
  from pos S0 nn have Sfin: "is_finite S" "0 \<le> rval S"
    by (cases X; cases S; simp add: dless_def dsub_def dadd_def dneg_def split: if_splits)+
  then have negS: "is_finite (dneg S)" "rval (dneg S) = - rval S" "\<not> is_nan (dneg S)" "\<not> is_inf (dneg S)"
    by (cases S; simp add: dneg_def)+
  have Sn: "\<not> is_inf S" using Sfin by (cases S) simp_all
  show ?thesis
  proof (cases "is_inf X")
    case True
    with pos nn Sn negS show ?thesis
      by (cases X) (simp_all add: dsub_def dadd_def dless_def)
  next
    case False
    with nn Sn negS have
      "dsub X S = fl (is_zero X \<and> is_zero (dneg S) \<and> signbit X \<and> signbit (dneg S)) (rval X - rval S)"
      "dadd X S = fl (is_zero X \<and> is_zero S \<and> signbit X \<and> signbit S) (rval X + rval S)"
      by (simp_all add: dsub_def dadd_def)
    moreover have "rval X - rval S \<le> rval X + rval S" using Sfin by simp
    ultimately show ?thesis by (simp add: fl_mono)
  qed
qed

lemma quotient_order:
  assumes pos: "dless (Fin 0) (ddiv n d)" and sd: "\<not> signbit d"
    and n1: "\<not> is_nan n1" and le: "\<not> dless n1 n"
  shows "\<not> dless (ddiv n1 d) (ddiv n d)"
proof -
  from pos have nn: "\<not> is_nan n" "\<not> is_nan d"
    by (cases n; cases d; simp add: dless_def ddiv_def split: if_splits)+
  from pos sd nn have dfin: "is_finite d" "0 \<le> rval d" "\<not> is_inf d"
    by (cases n; cases d; simp add: dless_def ddiv_def mk_zero_def mk_inf_def split: if_splits)+
  have mk: "\<And>z w. \<not> dless (mk_inf False) (mk_inf False)" "\<And>z x. \<not> dless PInf x \<or> True"
    by (simp_all add: dless_def mk_inf_def)
  show ?thesis
  proof (cases "is_zero d")
    case True
    with pos nn sd have "\<not> is_zero n" "\<not> signbit n"
      by (cases n; simp add: dless_def ddiv_def mk_inf_def split: if_splits)+
    with le n1 nn have "\<not> is_zero n1" "\<not> signbit n1"
      by (cases n; cases n1; simp add: dless_def split: if_splits)+
    with True n1 nn sd \<open>\<not> is_zero n\<close> \<open>\<not> signbit n\<close> show ?thesis
      by (simp add: ddiv_def dless_def mk_inf_def)
  next
    case False
    with dfin have dpos: "0 < rval d" by (cases d) simp_all
    show ?thesis
    proof (cases "is_inf n1")
      case True
      with le n1 nn have "n1 = PInf \<or> (n1 = NInf \<and> n = NInf)"
        by (cases n; cases n1; simp add: dless_def split: if_splits)
      moreover have "n \<noteq> NInf" using pos False dfin sd
        by (cases d) (auto simp: ddiv_def dless_def mk_inf_def)
      ultimately have "n1 = PInf" by simp
      with False dfin sd show ?thesis
        by (cases d) (simp_all add: ddiv_def dless_def mk_inf_def)
    next
      case n1fin: False
      show ?thesis
      proof (cases "is_inf n")
        case True
        with le n1 nn n1fin have "n = NInf"
          by (cases n; cases n1; simp add: dless_def split: if_splits)
        with pos False dfin sd show ?thesis
          by (cases d) (auto simp: ddiv_def dless_def mk_inf_def)
      next
        case nfin: False
        from le n1 nn n1fin nfin have "rval n \<le> rval n1"
          by (cases n; cases n1; simp add: dless_def split: if_splits)
        with dpos have "rval n / rval d \<le> rval n1 / rval d" by (simp add: divide_right_mono)
        moreover have "ddiv n d = fl (signbit n \<noteq> signbit d) (rval n / rval d)"
          "ddiv n1 d = fl (signbit n1 \<noteq> signbit d) (rval n1 / rval d)"
          using nn n1 nfin n1fin False dfin by (simp_all add: ddiv_def)
        ultimately show ?thesis by (simp add: fl_mono)
      qed
    qed
  qed
qed

lemma quotient_pos:
  assumes pos: "dless (Fin 0) (ddiv n d)" and sd: "\<not> signbit d"
  shows "dless (Fin 0) n"
proof (rule ccontr)
  assume neg: "\<not> dless (Fin 0) n"
  from pos have nn: "\<not> is_nan n" "\<not> is_nan d"
    by (cases n; cases d; simp add: dless_def ddiv_def split: if_splits)+
  show False
  proof (cases "is_inf n \<or> is_zero d \<or> is_inf d")
    case True
    with pos sd neg nn show False
      by (cases n; cases d; simp add: dless_def ddiv_def mk_inf_def mk_zero_def split: if_splits)
  next
    case False
    with nn sd have d: "0 < rval d" by (cases d) simp_all
    from False nn neg have "rval n \<le> 0" by (cases n) (simp_all add: dless_def)
    with d have "rval n / rval d \<le> 0" by (simp add: divide_le_0_iff)
    from fl_nonpos [OF this] pos False nn show False by (simp add: ddiv_def)
  qed
qed

lemma sphere_roots_ordered:
  assumes "a = dadd (dadd (sqr d0) (sqr d1)) (sqr d2)"
    and "t0 = ddiv (dsub (dneg b) (dsqrt disc)) (dmul (Fin 2) a)"
    and "t1 = ddiv (dadd (dneg b) (dsqrt disc)) (dmul (Fin 2) a)"
    and pos: "dless (Fin 0) t0"
  shows "\<not> dless t1 t0"
proof -
  let ?D = "dmul (Fin 2) a" and ?N0 = "dsub (dneg b) (dsqrt disc)" and ?N1 = "dadd (dneg b) (dsqrt disc)"
  have sd: "\<not> signbit ?D"
    unfolding assms(1) by (intro signbit_dmul_two signbit_dadd_nonneg signbit_sqr)
  from pos have p: "dless (Fin 0) (ddiv ?N0 ?D)" by (simp add: assms(2))
  show ?thesis
  proof (cases "is_nan ?N1")
    case True
    then show ?thesis by (simp add: assms(3) ddiv_def dless_def)
  next
    case False
    from p sd have "dless (Fin 0) ?N0" by (rule quotient_pos)
    from numerator_order [OF this dsqrt_nonneg] False have "\<not> dless ?N1 ?N0" by simp
    from quotient_order [OF p sd False this] show ?thesis by (simp add: assms(2) assms(3))
  qed
qed

subsection \<open>Evaluating the operations\<close>

text \<open>
  Integers below \<open>2^53\<close> are doubles (\<open>fl_int\<close>); around \<open>2^60\<close> the doubles are \<open>256\<close>
  apart (\<open>128\<close> just below), so \<open>2^60 + 1\<close>, \<open>2^60 + 25\<close> and \<open>2^60 - 1\<close> all round to
  \<open>2^60\<close>.
\<close>

lemmas dbl_eval = dadd_def dsub_def dmul_def ddiv_def dneg_def dsqrt_def dless_def sqr_def
  mk_zero_def mk_inf_def fl_zero fl_int

lemma sqrt_100: "sqrt 100 = 10"
  using real_sqrt_abs [of 10] by simp

lemma round64_binade:
  assumes "2 ^ k \<le> \<bar>x\<bar>" and "\<bar>x\<bar> < 2 ^ Suc k" and "52 \<le> k"
  shows "round64 x = of_int (rhe (x / 2 ^ (k - 52))) * 2 ^ (k - 52)"
proof -
  have "(0::real) < 2 ^ k" by (rule zero_less_power) simp
  then have nz: "x \<noteq> 0" using assms(1) by linarith
  have "\<lfloor>log 2 \<bar>x\<bar>\<rfloor> = int k"
    using nz assms(1,2) floor_log_eq_powr_iff [of "\<bar>x\<bar>" 2 "int k"]
    by (simp add: powr_realpow powr_add)
  then have "ulp_exp x = int (k - 52)" using assms(3) by (simp add: ulp_exp_def)
  with nz show ?thesis by (simp add: round64_def powr_realpow)
qed

lemma fl_pow60: "fl z (2 ^ 60) = Fin (2 ^ 60)"
proof -
  have "round64 (2 ^ 60) = 2 ^ 60" using round64_binade [of 60 "2 ^ 60"] by (simp add: rhe_def Let_def)
  then show ?thesis by (simp add: fl_def max_double_def)
qed

lemma fl_pow60_plus:
  assumes "x = 1 \<or> x = 25"
  shows "fl z (2 ^ 60 + x) = Fin (2 ^ 60)"
proof -
  have "round64 (2 ^ 60 + x) = 2 ^ 60"
    using assms round64_binade [of 60 "2 ^ 60 + x"] by (auto simp: rhe_def Let_def)
  then show ?thesis using assms by (auto simp: fl_def max_double_def)
qed



lemma fl_pow30: "fl z (2 ^ 30) = Fin (2 ^ 30)" "fl z (- (2 ^ 30)) = Fin (- (2 ^ 30))"
  by (simp_all add: fl_int)

subsection \<open>Integer coordinates: sums and products without rounding\<close>

text \<open>
  \<open>ival x k\<close>: the double \<open>x\<close> is the integer \<open>k\<close>; \<open>ivb x k B\<close>: and \<open>|k| \<le> B\<close>. Sums,
  differences and products of such doubles are exact as long as the bound stays below
  \<open>2^53\<close>.
\<close>

definition ival :: "dbl \<Rightarrow> int \<Rightarrow> bool" where
  "ival x k = (is_finite x \<and> rval x = of_int k)"

lemma round64_0 [simp]: "round64 0 = 0"
  by (simp add: round64_def)

lemma fl_finite:
  assumes "\<bar>round64 x\<bar> \<le> max_double"
  shows "is_finite (fl z x) \<and> rval (fl z x) = round64 x"
proof (cases "x = 0")
  case True
  then show ?thesis by (simp add: mk_zero_def)
next
  case False
  with assms show ?thesis by (simp add: fl_def Let_def mk_zero_def)
qed


lemma ival_fl:
  assumes "\<bar>k\<bar> < 2 ^ 53"
  shows "ival (fl z (of_int k)) k"
proof -
  have "\<bar>real_of_int k\<bar> < 2 ^ 53" using assms by (simp flip: of_int_abs of_int_less_iff)
  then have r: "round64 (of_int k) = of_int k" by (intro round64_int) simp_all
  moreover have "\<bar>real_of_int k\<bar> \<le> max_double"
    using \<open>\<bar>real_of_int k\<bar> < 2 ^ 53\<close> max_double_pos(2) by linarith
  ultimately show ?thesis using fl_finite [of "of_int k" z] by (simp add: ival_def)
qed

lemma ival_Fin [simp]: "ival (Fin (of_int k)) k"
  by (simp add: ival_def)

lemma ival_props: "ival x k \<Longrightarrow> \<not> is_nan x \<and> \<not> is_inf x \<and> is_finite x \<and> rval x = of_int k"
  by (cases x) (simp_all add: ival_def)

lemma ival_dneg: "ival x k \<Longrightarrow> ival (dneg x) (- k)"
  by (cases x) (auto simp: ival_def dneg_def)

lemma ival_dadd:
  assumes "ival x k" and "ival y l" and "\<bar>k + l\<bar> < 2 ^ 53"
  shows "ival (dadd x y) (k + l)"
  using ival_props [OF assms(1)] ival_props [OF assms(2)] ival_fl [OF assms(3)]
  by (simp add: dadd_def)

lemma ival_dsub:
  assumes "ival x k" and "ival y l" and "\<bar>k - l\<bar> < 2 ^ 53"
  shows "ival (dsub x y) (k - l)"
  using ival_dadd [OF assms(1) ival_dneg [OF assms(2)]] assms(3) by (simp add: dsub_def)

lemma ival_dmul:
  assumes "ival x k" and "ival y l" and "\<bar>k * l\<bar> < 2 ^ 53"
  shows "ival (dmul x y) (k * l)"
  using ival_props [OF assms(1)] ival_props [OF assms(2)] ival_fl [OF assms(3)]
  by (simp add: dmul_def)

lemma abs_mult_bound:
  fixes k l :: int
  assumes "\<bar>k\<bar> \<le> K" and "\<bar>l\<bar> \<le> L"
  shows "\<bar>k * l\<bar> \<le> K * L"
  unfolding abs_mult using assms by (intro mult_mono) auto


lemma round64_away_from_zero:
  assumes "2 powr of_int e \<le> x" and "- 1074 \<le> e"
  shows "2 powr of_int e \<le> round64 x"
  using round64_mono [OF assms(1)] round64_repr [of 1 e] assms(2) by simp

definition ivb :: "dbl \<Rightarrow> int \<Rightarrow> int \<Rightarrow> bool" where
  "ivb x k B = (ival x k \<and> \<bar>k\<bar> \<le> B)"

lemma ivb_Fin: "\<bar>k\<bar> \<le> B \<Longrightarrow> ivb (Fin (of_int k)) k B"
  by (simp add: ivb_def)

lemma ivb_dadd:
  assumes "ivb x k B" and "ivb y l C" and "B + C < 2 ^ 53"
  shows "ivb (dadd x y) (k + l) (B + C)"
proof -
  from assms have "\<bar>k + l\<bar> \<le> B + C" unfolding ivb_def by linarith
  with assms show ?thesis unfolding ivb_def by (auto intro!: ival_dadd)
qed

lemma ivb_dsub:
  assumes "ivb x k B" and "ivb y l C" and "B + C < 2 ^ 53"
  shows "ivb (dsub x y) (k - l) (B + C)"
proof -
  from assms have "\<bar>k - l\<bar> \<le> B + C" unfolding ivb_def by linarith
  with assms show ?thesis unfolding ivb_def by (auto intro!: ival_dsub)
qed

lemma ivb_dmul:
  assumes "ivb x k B" and "ivb y l C" and "B * C < 2 ^ 53"
  shows "ivb (dmul x y) (k * l) (B * C)"
proof -
  from assms have "\<bar>k * l\<bar> \<le> B * C" unfolding ivb_def by (intro abs_mult_bound) simp_all
  with assms show ?thesis unfolding ivb_def by (auto intro!: ival_dmul)
qed


lemma ivb_consts: "ivb (Fin 2) 2 2" "ivb (Fin 4) 4 4"
  by (simp_all add: ivb_def ival_def)

lemma ivb_sqr:
  assumes "ivb x k B" and "B * B < 2 ^ 53"
  shows "ivb (sqr x) (k * k) (B * B)"
  unfolding sqr_def using assms by (intro ivb_dmul)

lemma sphere_integer_disc:
  assumes bnd: "list_all (\<lambda>k. \<bar>k\<bar> \<le> 2 ^ 10) [o0, o1, o2, d0, d1, d2, c0, c1, c2, r]"
    and a: "a = d0 * d0 + d1 * d1 + d2 * d2"
    and b: "b = 2 * (d0 * (o0 - c0) + d1 * (o1 - c1) + d2 * (o2 - c2))"
    and c: "c = (o0 - c0) * (o0 - c0) + (o1 - c1) * (o1 - c1) + (o2 - c2) * (o2 - c2) - r * r"
    and disc: "disc = b * b - 4 * a * c"
  shows "disc < 0 \<longrightarrow>
         sphere_intersection [Fin (of_int o0), Fin (of_int o1), Fin (of_int o2)]
            [Fin (of_int d0), Fin (of_int d1), Fin (of_int d2)]
            [Fin (of_int c0), Fin (of_int c1), Fin (of_int c2)] (Fin (of_int r)) = Fin (- 1)"
proof -
  let ?Ox = "Fin (of_int o0)" and ?Oy = "Fin (of_int o1)" and ?Oz = "Fin (of_int o2)"
  let ?Dx = "Fin (of_int d0)" and ?Dy = "Fin (of_int d1)" and ?Dz = "Fin (of_int d2)"
  let ?Cx = "Fin (of_int c0)" and ?Cy = "Fin (of_int c1)" and ?Cz = "Fin (of_int c2)"
  let ?R = "Fin (of_int r)"
  let ?M = "2 ^ 10 :: int"
  let ?Asum = "dadd (dadd (sqr ?Dx) (sqr ?Dy)) (sqr ?Dz)"
  let ?Bsum = "dmul (Fin 2) (dadd (dadd (dmul ?Dx (dsub ?Ox ?Cx)) (dmul ?Dy (dsub ?Oy ?Cy)))
                               (dmul ?Dz (dsub ?Oz ?Cz)))"
  let ?Csum = "dsub (dadd (dadd (sqr (dsub ?Ox ?Cx)) (sqr (dsub ?Oy ?Cy))) (sqr (dsub ?Oz ?Cz))) (sqr ?R)"
  let ?Det = "dsub (sqr ?Bsum) (dmul (dmul (Fin 4) ?Asum) ?Csum)"
  from bnd have i: "ivb ?Ox o0 ?M" "ivb ?Oy o1 ?M" "ivb ?Oz o2 ?M"
    "ivb ?Dx d0 ?M" "ivb ?Dy d1 ?M" "ivb ?Dz d2 ?M"
    "ivb ?Cx c0 ?M" "ivb ?Cy c1 ?M" "ivb ?Cz c2 ?M" "ivb ?R r ?M"
    by (simp_all add: ivb_Fin)
  have A: "ivb ?Asum a (?M * ?M + ?M * ?M + ?M * ?M)" unfolding a
    by (intro ivb_dadd ivb_sqr i) simp_all
  have B: "ivb ?Bsum b (2 * (?M * (?M + ?M) + ?M * (?M + ?M) + ?M * (?M + ?M)))" unfolding b
    by (intro ivb_dmul ivb_dadd ivb_dsub ivb_consts i) simp_all
  have C: "ivb ?Csum c ((?M + ?M) * (?M + ?M) + (?M + ?M) * (?M + ?M) + (?M + ?M) * (?M + ?M) + ?M * ?M)"
    unfolding c by (intro ivb_dsub ivb_dadd ivb_sqr i) simp_all
  have "ivb ?Det disc
      (2 * (?M * (?M + ?M) + ?M * (?M + ?M) + ?M * (?M + ?M)) * (2 * (?M * (?M + ?M) + ?M * (?M + ?M) + ?M * (?M + ?M)))
       + 4 * (?M * ?M + ?M * ?M + ?M * ?M)
         * ((?M + ?M) * (?M + ?M) + (?M + ?M) * (?M + ?M) + (?M + ?M) * (?M + ?M) + ?M * ?M))"
    unfolding disc by (intro ivb_dsub ivb_sqr ivb_dmul ivb_consts A B C) simp_all
  then have "ival ?Det disc" by (simp add: ivb_def)
  then have "dless ?Det (Fin 0) = (disc < 0)"
    by (cases ?Det) (simp_all add: ival_def dless_def)
  then show ?thesis by (simp add: sphere_intersection_def Let_def)
qed

section \<open>The claims on the intersection routines\<close>

text \<open>
  C1, as stated, reads the formulas over the exact values. The code computes them in
  doubles: for origin \<open>(0,0,0)\<close>, direction \<open>(0,0,-1)\<close>, center \<open>(2^30, 1, -5)\<close> and radius
  \<open>2^30\<close> the exact \<open>c\<close> is \<open>26\<close> and the exact discriminant \<open>100 - 104\<close> is negative, so
  the claim gives "no intersection"; in the code \<open>2^60 + 1\<close> and \<open>2^60 + 25\<close> round to
  \<open>2^60\<close>, \<open>c\<close> is \<open>0\<close>, the discriminant is \<open>100\<close>, and the routine returns \<open>10\<close>.
\<close>

theorem sphere_intersection_rounding_counterexample:
  "sphere_intersection_claim [0, 0, 0] [0, 0, - 1] [2 ^ 30, 1, - 5] (2 ^ 30) = None
   \<and> sphere_intersection [Fin 0, Fin 0, Fin 0] [Fin 0, Fin 0, Fin (- 1)]
        [Fin (2 ^ 30), Fin 1, Fin (- 5)] (Fin (2 ^ 30)) = Fin 10"
proof -
  have claim: "sphere_intersection_claim [0, 0, 0] [0, 0, - 1] [2 ^ 30, 1, - 5] (2 ^ 30) = None"
    by (simp add: sphere_intersection_claim_def Let_def)
  have code: "sphere_intersection [Fin 0, Fin 0, Fin 0] [Fin 0, Fin 0, Fin (- 1)]
        [Fin (2 ^ 30), Fin 1, Fin (- 5)] (Fin (2 ^ 30)) = Fin 10"
    using fl_pow60 [simplified] fl_pow60_plus [of 1, simplified] fl_pow60_plus [of 25, simplified]
    by (simp add: sphere_intersection_def Let_def dbl_eval sqrt_100)
  from claim code show ?thesis by simp
qed

text \<open>
  C1, amended. \<open>sphere_intersection\<close> evaluates the formulas of the claim in double
  arithmetic, every operation rounded to the nearest double in the order of the source:
  with \<open>a = dot(direction, direction)\<close>, \<open>b = 2 * dot(direction, origin - center)\<close>,
  \<open>c = dot(origin - center, origin - center) - radius^2\<close>, \<open>disc = b^2 - 4ac\<close>,
  \<open>t0 = (-b - sqrt disc) / 2a\<close> and \<open>t1 = (-b + sqrt disc) / 2a\<close> so computed, it returns
  the sentinel \<open>-1\<close> ("no intersection") when \<open>disc < 0\<close>, otherwise \<open>t0\<close> when \<open>t0 > 0\<close>,
  else \<open>t1\<close> when \<open>t1 > 0\<close>, else \<open>-1\<close>. Whenever \<open>t0 > 0\<close>, \<open>t1\<close> is not smaller than \<open>t0\<close>:
  the root returned is the smaller positive one. For integer coordinates and radius
  of absolute value at most \<open>2^10\<close> the discriminant is computed without rounding, so
  the result is \<open>-1\<close> whenever the exact discriminant is negative. For origin
  \<open>(0,0,0)\<close>, direction \<open>(0,0,-1)\<close>, center \<open>(0,0,-5)\<close>, radius \<open>1\<close> the result is \<open>4\<close>; for
  direction \<open>(0,0,1)\<close> it is \<open>-1\<close>.
\<close>

theorem sphere_intersection_rounded:
  assumes "a = dadd (dadd (sqr d0) (sqr d1)) (sqr d2)"
    and "b = dmul (Fin 2) (dadd (dadd (dmul d0 (dsub o0 c0)) (dmul d1 (dsub o1 c1)))
                                (dmul d2 (dsub o2 c2)))"
    and "c = dsub (dadd (dadd (sqr (dsub o0 c0)) (sqr (dsub o1 c1))) (sqr (dsub o2 c2))) (sqr r)"
    and "disc = dsub (sqr b) (dmul (dmul (Fin 4) a) c)"
    and "t0 = ddiv (dsub (dneg b) (dsqrt disc)) (dmul (Fin 2) a)"
    and "t1 = ddiv (dadd (dneg b) (dsqrt disc)) (dmul (Fin 2) a)"
    and "ia = id0 * id0 + id1 * id1 + id2 * id2"
    and "ib = 2 * (id0 * (io0 - ic0) + id1 * (io1 - ic1) + id2 * (io2 - ic2))"
    and "ic = (io0 - ic0) * (io0 - ic0) + (io1 - ic1) * (io1 - ic1) + (io2 - ic2) * (io2 - ic2)
              - ir * ir"
    and "idisc = ib * ib - 4 * ia * ic"
  shows "sphere_intersection [o0, o1, o2] [d0, d1, d2] [c0, c1, c2] r =
           (if dless disc (Fin 0) then Fin (- 1)
            else if dless (Fin 0) t0 then t0
            else if dless (Fin 0) t1 then t1
            else Fin (- 1))
         \<and> (dless (Fin 0) t0 \<longrightarrow> \<not> dless t1 t0)
         \<and> (list_all (\<lambda>k. \<bar>k\<bar> \<le> 2 ^ 10) [io0, io1, io2, id0, id1, id2, ic0, ic1, ic2, ir]
              \<and> idisc < 0 \<longrightarrow>
            sphere_intersection [Fin (of_int io0), Fin (of_int io1), Fin (of_int io2)]
              [Fin (of_int id0), Fin (of_int id1), Fin (of_int id2)]
              [Fin (of_int ic0), Fin (of_int ic1), Fin (of_int ic2)] (Fin (of_int ir)) = Fin (- 1))
         \<and> sphere_intersection [Fin 0, Fin 0, Fin 0] [Fin 0, Fin 0, Fin (- 1)]
               [Fin 0, Fin 0, Fin (- 5)] (Fin 1) = Fin 4
         \<and> sphere_intersection [Fin 0, Fin 0, Fin 0] [Fin 0, Fin 0, Fin 1]
               [Fin 0, Fin 0, Fin (- 5)] (Fin 1) = Fin (- 1)"
proof -
  have chain: "sphere_intersection [o0, o1, o2] [d0, d1, d2] [c0, c1, c2] r =
           (if dless disc (Fin 0) then Fin (- 1)
            else if dless (Fin 0) t0 then t0
            else if dless (Fin 0) t1 then t1
            else Fin (- 1))"
    unfolding assms(1-6) by (simp add: sphere_intersection_def Let_def)
  have ordered: "dless (Fin 0) t0 \<longrightarrow> \<not> dless t1 t0"
    using sphere_roots_ordered [OF assms(1) assms(5) assms(6)] by blast
  have integers: "list_all (\<lambda>k. \<bar>k\<bar> \<le> 2 ^ 10) [io0, io1, io2, id0, id1, id2, ic0, ic1, ic2, ir]
              \<and> idisc < 0 \<longrightarrow>
            sphere_intersection [Fin (of_int io0), Fin (of_int io1), Fin (of_int io2)]
              [Fin (of_int id0), Fin (of_int id1), Fin (of_int id2)]
              [Fin (of_int ic0), Fin (of_int ic1), Fin (of_int ic2)] (Fin (of_int ir)) = Fin (- 1)"
    using sphere_integer_disc [OF _ assms(7) assms(8) assms(9) assms(10)] by blast
  have towards: "sphere_intersection [Fin 0, Fin 0, Fin 0] [Fin 0, Fin 0, Fin (- 1)]
      [Fin 0, Fin 0, Fin (- 5)] (Fin 1) = Fin 4"
    by (simp add: sphere_intersection_def Let_def dbl_eval)
  have away: "sphere_intersection [Fin 0, Fin 0, Fin 0] [Fin 0, Fin 0, Fin 1]
      [Fin 0, Fin 0, Fin (- 5)] (Fin 1) = Fin (- 1)"
    by (simp add: sphere_intersection_def Let_def dbl_eval)
  from chain ordered integers towards away show ?thesis by blast
qed


theorem sphere_intersection_rounded_witness:
  "list_all (\<lambda>k. \<bar>k\<bar> \<le> 2 ^ 10) [0, 0, 0, 0, 1, 0, 5, 0, 0, 1 :: int]
   \<and> (- 96 :: int) < 0
   \<and> sphere_intersection [Fin 0, Fin 0, Fin 0] [Fin 0, Fin 1, Fin 0] [Fin 5, Fin 0, Fin 0] (Fin 1)
       = Fin (- 1)
   \<and> dless (Fin 0) (Fin 2) \<and> \<not> dless (Fin 4) (Fin 2)"
  using sphere_intersection_rounded [OF refl refl refl refl refl refl refl refl refl refl,
      THEN conjunct2, THEN conjunct2, THEN conjunct1, of 0 0 0 0 1 0 5 0 0 1]
    sphere_intersection_rounded [OF refl refl refl refl refl refl refl refl refl refl,
      THEN conjunct2, THEN conjunct1,
      of "Fin 1" "Fin 1" "Fin 4" "Fin 0" "Fin 0" "Fin 0" "Fin 0" "Fin 0" "Fin 0" "Fin 1"]
  by (simp add: dbl_eval)





text \<open>
  C3. The claim: for a ray whose direction is orthogonal to the normal,
  \<open>plane_intersection\<close> returns "no intersection" and never NaN or infinity. The code
  divides by \<open>a = 0\<close> without a test. For origin \<open>(0,0,0)\<close>, direction \<open>(1,0,0)\<close> and
  normal \<open>(0,0,1)\<close>: with the plane through \<open>(0,0,10)\<close> it returns \<open>10 / 0\<close>, the
  positive infinity, and with the plane through the origin it returns \<open>0 / 0\<close>, a NaN;
  neither is the sentinel \<open>-1\<close>, since \<open>t < 0\<close> is false for both.
\<close>

theorem plane_intersection_parallel_returns_inf_nan:
  "plane_intersection [Fin 0, Fin 0, Fin 0] [Fin 1, Fin 0, Fin 0]
       [Fin 0, Fin 0, Fin 10] [Fin 0, Fin 0, Fin 1] = PInf
   \<and> plane_intersection [Fin 0, Fin 0, Fin 0] [Fin 1, Fin 0, Fin 0]
       [Fin 0, Fin 0, Fin 0] [Fin 0, Fin 0, Fin 1] = NaN"
  by (simp add: plane_intersection_def Let_def upt_rec dbl_eval)

section \<open>The claims on the lexer and the loader\<close>

text \<open>The definitions that running the loader on a text unfolds.\<close>

lemmas lexer_eval = fopen_def fgetc_def ungetc_def bind_p_def return_p_def exit_p_def next_c_def
  expect_c_def isspace_def skip_ws_def next_string_def next_number_def next_vector_def

lemmas scan_eval = scan_decimal_def is_digit_def digits_value_def fl_zero fl_int mk_zero_def Let_def

lemmas loader_eval = color_invalid_def camera_field_def camera_step_def sphere_field_def
  sphere_step_def plane_field_def plane_step_def light_field_def light_step_def log_unknown_def
  store_def read_object_def read_scene_def dless_def scene_loop.simps

subsection \<open>The loop of \<open>read_scene\<close> at the end of the file\<close>

text \<open>
  Once the input is exhausted the loop never exits: \<^verbatim>\<open>fgetc\<close> returns \<^verbatim>\<open>EOF\<close>, which is
  neither \<open>]\<close> nor \<open>{\<close>. Every run that exits has read its \<open>]\<close> or met an error before.
\<close>

lemma scene_loop_needs_input:
  assumes "scene_loop e i cam arr s = Some y"
  shows "inp s \<noteq> []"
proof (rule scene_loop.raw_induct [where P = "\<lambda>e i cam arr s y. inp s \<noteq> []", OF _ assms])
  fix loop :: "env \<Rightarrow> nat \<Rightarrow> Object \<Rightarrow> (nat \<times> Object) list \<Rightarrow> pstate \<Rightarrow> outcome option"
  fix e i cam objectArray s y
  assume IH: "\<And>e i cam objectArray s y. loop e i cam objectArray s = Some y \<Longrightarrow> inp s \<noteq> []"
  assume body: "(case fgetc s of
      (c, s1) \<Rightarrow>
        if c = Some CHR '']'' then Some (Exit0 objectArray s1)
        else if c = Some CHR ''{''
             then case read_object e i cam objectArray s1 of
                  Inl err \<Rightarrow> Some (Exit1 err)
                  | Inr ((cam', arr), s2) \<Rightarrow> loop e (i + 1) cam' arr s2
             else loop e (i + 1) cam objectArray s1) = Some y"
  show "inp s \<noteq> []"
  proof
    assume empty: "inp s = []"
    then have "fgetc s = (None, s\<lparr>eof := True\<rparr>)" by (simp add: fgetc_def)
    with body have "loop e (i + 1) cam objectArray (s\<lparr>eof := True\<rparr>) = Some y" by simp
    from IH [OF this] empty show False by simp
  qed
qed

lemma scene_loop_diverges_at_eof: "inp s = [] \<Longrightarrow> scene_loop e i cam arr s = None"
  using scene_loop_needs_input [of e i cam arr s] by (cases "scene_loop e i cam arr s") auto

lemma read_scene_diverges: "read_scene e (Some ''[x'') = None"
  by (simp add: read_scene_def lexer_eval scene_loop_diverges_at_eof)

text \<open>
  C4. The claim: on a well-formed text \<open>read_scene\<close> returns the scene when it reads the
  closing \<open>]\<close>, with as many objects as the array has entries. The code has no
  \<^verbatim>\<open>return\<close>: it ends the program with \<^verbatim>\<open>exit(0)\<close> there. Nor does the array hold the
  objects of the text: the test for the empty scene has consumed the \<open>{\<close> of the first
  entry, so the loop passes over the first object character by character, and \<^verbatim>\<open>i\<close>
  counts the rounds of the loop, not the objects. For the text with one camera the
  array is empty at the exit; for the camera followed by a sphere it holds the sphere
  alone, at index 44.
\<close>

theorem read_scene_exits_without_first_object:
  "read_scene e (Some scene_camera) = Some (Exit0 [] (fopen []))
   \<and> read_scene (e\<lparr>fscanf_lf := scan_decimal\<rparr>) (Some scene_camera_sphere) =
       Some (Exit0 [(44, (garbage_object e)\<lparr>otype := ''sphere'', colorGiven := True,
           positionGiven := True, radiusGiven := True, color := [Fin 1, Fin 0, Fin 0],
           position := [Fin 0, Fin 0, Fin (- 5)], radius := Fin 1\<rparr>)] (fopen []))"
proof -
  have one: "read_scene e (Some scene_camera) = Some (Exit0 [] (fopen []))"
    by (simp add: scene_camera_def lexer_eval loader_eval)
  have two: "read_scene (e\<lparr>fscanf_lf := scan_decimal\<rparr>) (Some scene_camera_sphere) =
       Some (Exit0 [(44, (garbage_object e)\<lparr>otype := ''sphere'', colorGiven := True,
           positionGiven := True, radiusGiven := True, color := [Fin 1, Fin 0, Fin 0],
           position := [Fin 0, Fin 0, Fin (- 5)], radius := Fin 1\<rparr>)] (fopen []))"
    by (simp add: scene_camera_sphere_def lexer_eval loader_eval scan_eval)
  from one two show ?thesis by simp
qed

subsection \<open>Keys given twice\<close>

text \<open>
  The branches that find a field already set. The colour of a plane is not among them:
  its flag is tested but never set (see \<open>plane_field\<close>).
\<close>

lemma duplicate_field_detected:
  "widthGiven obj \<Longrightarrow> camera_field e ''width'' obj s = Inl (DuplicateField Camera Width)"
  "heightGiven obj \<Longrightarrow> camera_field e ''height'' obj s = Inl (DuplicateField Camera Height)"
  "colorGiven obj \<Longrightarrow> sphere_field e ''color'' obj s = Inl (DuplicateField Sphere Color)"
  "radiusGiven obj \<Longrightarrow> sphere_field e ''radius'' obj s = Inl (DuplicateField Sphere Radius)"
  "positionGiven obj \<Longrightarrow> sphere_field e ''position'' obj s = Inl (DuplicateField Sphere Position)"
  "positionGiven obj \<Longrightarrow> plane_field e ''position'' obj s = Inl (DuplicateField Plane Position)"
  "colorGiven obj \<Longrightarrow> light_field e ''color'' obj s = Inl (DuplicateField Light Color)"
  "normalGiven obj \<Longrightarrow> light_field e ''normal'' obj s = Inl (DuplicateField Light Normal)"
  "positionGiven obj \<Longrightarrow> light_field e ''position'' obj s = Inl (DuplicateField Light Position)"
  by (simp_all add: camera_field_def sphere_field_def plane_field_def light_field_def exit_p_def)

text \<open>
  C5. The claim: a key given twice in one object always ends the parse with the
  duplicate-field error. The sphere branch does so (two \<open>radius\<close> keys). The plane
  branch tests \<^verbatim>\<open>colorGiven\<close> but never sets it: the second \<open>color\<close> of a plane is read
  like the first, and the parse ends at the closing brace with the message of the
  missing fields instead.
\<close>

theorem plane_duplicate_color_not_detected:
  "read_scene (e\<lparr>fscanf_lf := scan_decimal\<rparr>) (Some scene_plane_two_colors)
     = Some (Exit1 (MissingRequiredField Plane []))
   \<and> read_scene (e\<lparr>fscanf_lf := scan_decimal\<rparr>) (Some scene_sphere_two_radii)
     = Some (Exit1 (DuplicateField Sphere Radius))"
proof -
  have plane: "read_scene (e\<lparr>fscanf_lf := scan_decimal\<rparr>) (Some scene_plane_two_colors)
      = Some (Exit1 (MissingRequiredField Plane []))"
    by (simp add: scene_plane_two_colors_def lexer_eval loader_eval scan_eval)
  have sphere: "read_scene (e\<lparr>fscanf_lf := scan_decimal\<rparr>) (Some scene_sphere_two_radii)
      = Some (Exit1 (DuplicateField Sphere Radius))"
    by (simp add: scene_sphere_two_radii_def lexer_eval loader_eval scan_eval)
  from plane sphere show ?thesis by simp
qed

subsection \<open>The plane loop never sets \<open>colorGiven\<close>\<close>

lemma plane_field_colorGiven:
  "plane_field e key obj s = Inr (obj', s') \<Longrightarrow> colorGiven obj' = colorGiven obj"
  by (auto simp: plane_field_def bind_p_Inr return_p_def exit_p_def log_unknown_def
      split: if_splits)

lemma plane_step_colorGiven:
  assumes "plane_step e obj s = Inr (r, s')"
  shows "colorGiven (case r of Break obj' \<Rightarrow> obj' | Continue obj' \<Rightarrow> obj') = colorGiven obj"
proof -
  from assms obtain c s1 where n: "next_c s = Inr (c, s1)"
    and rest: "(if c = CHR ''}'' then return_p (Break obj)
       else if c = CHR '','' then
         bind_p skip_ws (\<lambda>_.
         bind_p next_string (\<lambda>key.
         bind_p skip_ws (\<lambda>_.
         bind_p (expect_c CHR '':'') (\<lambda>_.
         bind_p skip_ws (\<lambda>_.
         bind_p (plane_field e key obj) (\<lambda>aPlane'.
         bind_p skip_ws (\<lambda>_.
         return_p (Continue aPlane'))))))))
       else return_p (Continue obj)) s1 = Inr (r, s')"
    unfolding plane_step_def bind_p_Inr by blast
  show ?thesis
  proof (cases "c = CHR ''}''")
    case True
    with rest show ?thesis by (auto simp: return_p_def)
  next
    case nb: False
    show ?thesis
    proof (cases "c = CHR '',''")
      case True
      with nb rest obtain key sa obj' sb where f: "plane_field e key obj sa = Inr (obj', sb)"
        and r: "r = Continue obj'"
        by (auto simp: bind_p_Inr return_p_def)
      from plane_field_colorGiven [OF f] r show ?thesis by simp
    next
      case False
      with nb rest show ?thesis by (auto simp: return_p_def)
    qed
  qed
qed

lemma plane_fields_colorGiven:
  "plane_fields e obj s = Inr (obj', s') \<Longrightarrow> colorGiven obj' = colorGiven obj"
proof (induction e obj s rule: plane_fields.induct)
  case (1 e aPlane s)
  from "1.prems" obtain r s1 where st: "plane_step e aPlane s = Inr (r, s1)"
    by (cases "plane_step e aPlane s") auto
  show ?case
  proof (cases r)
    case (Break b)
    with st "1.prems" plane_step_colorGiven [OF st] show ?thesis by simp
  next
    case (Continue b)
    with st "1.prems" have "plane_fields e b s1 = Inr (obj', s')" by simp
    from "1.IH" [OF st refl Continue this] plane_step_colorGiven [OF st] Continue
    show ?thesis by simp
  qed
qed

text \<open>
  C6. The claim: a plane that gives \<open>position\<close>, \<open>color\<close> and \<open>normal\<close> once each passes
  the test after its closing brace and is stored. In the code \<^verbatim>\<open>colorGiven\<close> is false
  when the plane loop starts and nothing in the loop sets it, so whenever the loop
  returns, \<^verbatim>\<open>!aPlane.colorGiven\<close> holds and the test after the brace exits: no plane is
  ever stored. The complete plane of \<open>scene_plane_complete\<close> does not even reach that
  test: its key \<open>normal\<close> is compared with \<^verbatim>\<open>""\<close>, so it is an unknown property, its
  value is not read, and the comma inside the value is taken for the start of a field.
\<close>

theorem plane_never_accepted:
  "(plane_fields e ((garbage_object e)\<lparr>otype := val, colorGiven := False,
        positionGiven := False\<rparr>) s = Inr (aPlane, s') \<longrightarrow> \<not> colorGiven aPlane)
   \<and> read_scene (e\<lparr>fscanf_lf := scan_decimal\<rparr>) (Some scene_plane_complete)
       = Some (Exit1 (ExpectedString 1))"
proof -
  have general: "plane_fields e ((garbage_object e)\<lparr>otype := val, colorGiven := False,
        positionGiven := False\<rparr>) s = Inr (aPlane, s') \<longrightarrow> \<not> colorGiven aPlane"
  proof
    assume run: "plane_fields e ((garbage_object e)\<lparr>otype := val, colorGiven := False,
        positionGiven := False\<rparr>) s = Inr (aPlane, s')"
    from plane_fields_colorGiven [OF run] show "\<not> colorGiven aPlane" by simp
  qed
  have complete: "read_scene (e\<lparr>fscanf_lf := scan_decimal\<rparr>) (Some scene_plane_complete)
       = Some (Exit1 (ExpectedString 1))"
    by (simp add: scene_plane_complete_def lexer_eval loader_eval scan_eval)
  from general complete show ?thesis by simp
qed

theorem plane_never_accepted_witness:
  \<open>\<exists>aPlane s'.
     plane_fields env_example ((garbage_object env_example)\<lparr>otype := ''plane'',
        colorGiven := False, positionGiven := False\<rparr>) (fopen '', "color": [1, 2, 3]}'')
       = Inr (aPlane, s')
     \<and> \<not> colorGiven aPlane\<close>
proof -
  have \<open>\<exists>aPlane s'.
     plane_fields env_example ((garbage_object env_example)\<lparr>otype := ''plane'',
        colorGiven := False, positionGiven := False\<rparr>) (fopen '', "color": [1, 2, 3]}'')
       = Inr (aPlane, s')\<close>
    by (simp add: env_example_def lexer_eval loader_eval scan_eval)
  then show ?thesis
    using plane_never_accepted by blast
qed

subsection \<open>Unknown keys\<close>

lemma unknown_key_logged:
  assumes "key \<noteq> ''color''" and "key \<noteq> ''position''"
  shows "key \<noteq> ''radius'' \<Longrightarrow> sphere_field e key obj s =
           Inr (obj, s\<lparr>errlog := errlog s @ [UnknownProperty key (line s)]\<rparr>)"
    and "key \<noteq> [] \<Longrightarrow> plane_field e key obj s =
           Inr (obj, s\<lparr>errlog := errlog s @ [UnknownProperty key (line s)]\<rparr>)"
    and "key \<noteq> ''normal'' \<Longrightarrow> light_field e key obj s =
           Inr (obj, s\<lparr>errlog := errlog s @ [UnknownProperty key (line s)]\<rparr>)"
  using assms
  by (simp_all add: sphere_field_def plane_field_def light_field_def log_unknown_def)

text \<open>
  C7. The claim: in a camera, a sphere or a plane an unknown key ends the parse with the
  unknown-property error, and only the light branch prints the message and goes on. In
  the code the sphere and plane branches are like the light branch: the message is
  printed and no \<^verbatim>\<open>exit\<close> follows. The sphere with the key \<open>foo\<close> is stored and the
  program ends with \<^verbatim>\<open>exit(0)\<close>; the message is in the log. Only the camera loop exits,
  and not at the key: at the first character of its value, with the message naming the
  key \<open>type\<close>.
\<close>

theorem sphere_unknown_key_continues:
  "read_scene (e\<lparr>fscanf_lf := scan_decimal\<rparr>) (Some scene_sphere_unknown_key) =
       Some (Exit0 [(44, (garbage_object e)\<lparr>otype := ''sphere'', colorGiven := True,
           positionGiven := True, radiusGiven := True, color := [Fin 1, Fin 0, Fin 0],
           position := [Fin 0, Fin 0, Fin (- 5)], radius := Fin 1\<rparr>)] ((fopen [])\<lparr>errlog := [UnknownProperty ''foo'' 1]\<rparr>))
   \<and> read_scene (e\<lparr>fscanf_lf := scan_decimal\<rparr>) (Some scene_camera_unknown_key) =
       Some (Exit1 (UnknownProperty ''type'' 1))"
proof -
  have sphere: "read_scene (e\<lparr>fscanf_lf := scan_decimal\<rparr>) (Some scene_sphere_unknown_key) =
       Some (Exit0 [(44, (garbage_object e)\<lparr>otype := ''sphere'', colorGiven := True,
           positionGiven := True, radiusGiven := True, color := [Fin 1, Fin 0, Fin 0],
           position := [Fin 0, Fin 0, Fin (- 5)], radius := Fin 1\<rparr>)] ((fopen [])\<lparr>errlog := [UnknownProperty ''foo'' 1]\<rparr>))"
    by (simp add: scene_sphere_unknown_key_def lexer_eval loader_eval scan_eval)
  have camera: "read_scene (e\<lparr>fscanf_lf := scan_decimal\<rparr>) (Some scene_camera_unknown_key) =
       Some (Exit1 (UnknownProperty ''type'' 1))"
    by (simp add: scene_camera_unknown_key_def lexer_eval loader_eval scan_eval)
  from sphere camera show ?thesis by simp
qed

subsection \<open>The range test of a colour\<close>

lemma dless_fin: "is_finite x \<Longrightarrow> is_finite y \<Longrightarrow> dless x y = (rval x < rval y)"
  by (cases x; cases y) (auto simp: dless_def)

text \<open>
  Where a colour branch is reached, its test is the one claimed: on finite channels it
  fails exactly when a channel is below 0 or above 255, both bounds accepted.
\<close>

lemma color_invalid_finite:
  assumes "list_all is_finite [c0, c1, c2]"
  shows "color_invalid [c0, c1, c2] =
    (rval c0 < 0 \<or> 255 < rval c0 \<or> rval c1 < 0 \<or> 255 < rval c1 \<or> rval c2 < 0 \<or> 255 < rval c2)"
  using assms by (simp add: color_invalid_def dless_fin)

lemma color_branch_checks_range:
  assumes "next_vector e s = Inr (v, s')" and "\<not> colorGiven obj"
  shows "sphere_field e ''color'' obj s =
           (if color_invalid v then Inl (ValueOutOfRange Sphere Color)
            else Inr (obj\<lparr>colorGiven := True, color := [v ! 0, v ! 1, v ! 2]\<rparr>, s'))"
    and "plane_field e ''color'' obj s =
           (if color_invalid v then Inl (ValueOutOfRange Plane Color) else Inr (obj, s'))"
    and "light_field e ''color'' obj s =
           (if color_invalid v then Inl (ValueOutOfRange Light Color)
            else Inr (obj\<lparr>colorGiven := True, color := [v ! 0, v ! 1, v ! 2]\<rparr>, s'))"
  using assms
  by (simp_all add: sphere_field_def plane_field_def light_field_def bind_p_def return_p_def
      exit_p_def)

text \<open>
  C8. The claim: in every colour field a channel outside \<open>[0, 255]\<close> always ends the
  parse with the out-of-range error. The three tests of the code are right
  (\<open>color_branch_checks_range\<close>), but the first object of a text is never parsed: the
  test for the empty scene consumes its \<open>{\<close>. For a scene whose first object is a sphere
  with the channel 256, the loop passes over the colour, takes the \<open>]\<close> that closes it
  for the end of the array, and ends the program with \<^verbatim>\<open>exit(0)\<close> and no message.
\<close>

theorem first_object_color_not_checked:
  \<open>read_scene e (Some scene_sphere_color_256) =
     Some (Exit0 [] ((fopen [])\<lparr>inp := '', "position": [0, 0, -5], "radius": 1}]''\<rparr>))\<close>
  by (simp add: scene_sphere_color_256_def lexer_eval loader_eval)

subsection \<open>White space before a character that is none\<close>

lemma next_c_Cons:
  "inp s = c # cs \<Longrightarrow> \<exists>s'. next_c s = Inr (c, s') \<and> inp s' = cs"
  by (simp add: next_c_def fgetc_def)

lemma skip_ws_loop_spaces:
  "list_all isspace ws \<Longrightarrow> \<not> isspace d \<Longrightarrow> inp s = ws @ d # rest \<Longrightarrow> isspace c \<Longrightarrow>
   \<exists>s'. skip_ws_loop c s = Inr ((), s') \<and> inp s' = d # rest"
proof (induction ws arbitrary: s c)
  case Nil
  then obtain s1 where n: "next_c s = Inr (d, s1)" and i: "inp s1 = rest"
    using next_c_Cons [of s d rest] by auto
  with Nil show ?case by (simp add: ungetc_def)
next
  case (Cons w ws)
  then obtain s1 where n: "next_c s = Inr (w, s1)" and i: "inp s1 = ws @ d # rest"
    using next_c_Cons [of s w "ws @ d # rest"] by auto
  from Cons.prems have "list_all isspace ws" "isspace w" by simp_all
  from Cons.IH [OF this(1) Cons.prems(2) i this(2)] n Cons.prems(4)
  show ?case by simp
qed

lemma skip_ws_spaces:
  assumes "list_all isspace ws" "\<not> isspace d" "inp s = ws @ d # rest"
  shows "\<exists>s'. skip_ws s = Inr ((), s') \<and> inp s' = d # rest"
proof (cases ws)
  case Nil
  with assms obtain s1 where n: "next_c s = Inr (d, s1)" and i: "inp s1 = rest"
    using next_c_Cons [of s d rest] by auto
  with assms(2) show ?thesis by (simp add: skip_ws_def bind_p_def ungetc_def)
next
  case (Cons w ws')
  with assms obtain s1 where n: "next_c s = Inr (w, s1)" and i: "inp s1 = ws' @ d # rest"
    using next_c_Cons [of s w "ws' @ d # rest"] by auto
  from assms(1) Cons have "list_all isspace ws'" "isspace w" by simp_all
  from skip_ws_loop_spaces [OF this(1) assms(2) i this(2)] n
  show ?thesis by (simp add: skip_ws_def bind_p_def)
qed

lemma expect_c_Cons:
  "inp s = c # cs \<Longrightarrow> \<exists>s'. expect_c c s = Inr ((), s') \<and> inp s' = cs"
  using next_c_Cons [of s c cs] by (auto simp: expect_c_def bind_p_def)

lemma not_space_brackets: "\<not> isspace CHR ''[''" "\<not> isspace CHR '']''"
  by (simp_all add: isspace_def)

text \<open>
  C9. When the text is \<open>[\<close>, then \<open>]\<close> as the first character after it that is not
  white space (white space may also come before the \<open>[\<close>, and anything after the
  \<open>]\<close>), \<open>read_scene\<close> exits with the message of the empty scene, and so produces no
  scene.
\<close>

theorem empty_scene_rejected:
  assumes "list_all isspace ws1" and "list_all isspace ws2"
  shows "read_scene e (Some (ws1 @ ''['' @ ws2 @ '']'' @ rest)) = Some (Exit1 EmptySceneRejected)"
proof -
  let ?txt = "ws1 @ ''['' @ ws2 @ '']'' @ rest"
  have "inp (fopen ?txt) = ws1 @ CHR ''['' # (ws2 @ CHR '']'' # rest)"
    by (simp add: fopen_def)
  from skip_ws_spaces [OF assms(1) not_space_brackets(1) this]
  obtain s1 where a1: "skip_ws (fopen ?txt) = Inr ((), s1)"
      and i1: "inp s1 = CHR ''['' # (ws2 @ CHR '']'' # rest)" by blast
  from expect_c_Cons [OF i1]
  obtain s2 where a2: "expect_c CHR ''['' s1 = Inr ((), s2)"
      and i2: "inp s2 = ws2 @ CHR '']'' # rest" by blast
  from skip_ws_spaces [OF assms(2) not_space_brackets(2) i2]
  obtain s3 where a3: "skip_ws s2 = Inr ((), s3)" and i3: "inp s3 = CHR '']'' # rest" by blast
  have "bind_p skip_ws (\<lambda>_. bind_p (expect_c CHR ''['') (\<lambda>_. skip_ws)) (fopen ?txt) = Inr ((), s3)"
    using a1 a2 a3 by (simp add: bind_p_def)
  moreover have "fgetc s3 = (Some CHR '']'', s3\<lparr>inp := rest\<rparr>)"
    using i3 by (simp add: fgetc_def)
  ultimately show ?thesis
    by (simp add: read_scene_def)
qed

theorem empty_scene_rejected_witness:
  "list_all isspace [] \<and> list_all isspace '' ''
   \<and> read_scene env_example (Some ''[ ]'') = Some (Exit1 EmptySceneRejected)
   \<and> read_scene env_example (Some ''[]'') = Some (Exit1 EmptySceneRejected)"
  using empty_scene_rejected [of "[]" "'' ''" env_example "[]"]
    empty_scene_rejected [of "[]" "[]" env_example "[]"]
  by (simp add: isspace_def)




end
